theory Spec2Isabelle
  imports Main
begin

section \<open>Python values used by the identity core\<close>

text \<open>
  Python strings are modelled as HOL strings, one \<open>char\<close> per code point below 256.
  Python integers are \<open>int\<close>. A \<open>datetime\<close> is the number of microseconds since
  an arbitrary epoch; \<open>datetime.utcnow()\<close> is an explicit argument \<open>now\<close> of every
  operation that reads the clock.
\<close>

datatype error = TypeError | AttributeError | KeyError | IntegrityError

text \<open>\<open>str(n)\<close> for an integer: decimal digits, with a leading minus sign below zero.\<close>

definition digit_char :: "nat \<Rightarrow> char" where
  "digit_char d = char_of (48 + d)"

fun str_nat :: "nat \<Rightarrow> string" where
  "str_nat n = (if n < 10 then [digit_char n] else str_nat (n div 10) @ [digit_char (n mod 10)])"

declare str_nat.simps [simp del]

definition str_int :: "int \<Rightarrow> string" where
  "str_int i = (if i < 0 then CHR ''-'' # str_nat (nat (- i)) else str_nat (nat i))"

definition is_digit :: "char \<Rightarrow> bool" where
  "is_digit c = (48 \<le> (of_char c :: nat) \<and> (of_char c :: nat) \<le> 57)"

text \<open>The decimal value of a digit string (the inverse of \<open>str_nat\<close>).\<close>

definition digit_val :: "char \<Rightarrow> nat" where
  "digit_val c = (of_char c :: nat) - 48"

definition nat_of_digits :: "string \<Rightarrow> nat" where
  "nat_of_digits s = foldl (\<lambda>a c. 10 * a + digit_val c) 0 s"

text \<open>
  \<open>random.randint(a, b)\<close> returns some integer \<open>N\<close> with \<open>a \<le> N \<le> b\<close>. The draw is
  modelled by an explicit entropy argument; every value of the range is produced by some
  entropy and no other value is.
\<close>

definition randint :: "int \<Rightarrow> int \<Rightarrow> nat \<Rightarrow> int" where
  "randint a b entropy = a + int (entropy mod nat (b - a + 1))"

definition timedelta_minutes :: "int \<Rightarrow> int" where
  "timedelta_minutes m = m * 60 * 1000000"

text \<open>Truth value of an optional string: \<open>None\<close> and the empty string are falsy.\<close>

fun truthy :: "string option \<Rightarrow> bool" where
  "truthy None = False"
| "truthy (Some s) = (s \<noteq> [])"

subsection \<open>String methods\<close>

text \<open>\<open>str.lower()\<close> on code points below 256: A to Z and the Latin-1 capitals.\<close>

definition py_lower_char :: "char \<Rightarrow> char" where
  "py_lower_char c =
     (let n = (of_char c :: nat)
      in if (65 \<le> n \<and> n \<le> 90) \<or> (192 \<le> n \<and> n \<le> 222 \<and> n \<noteq> 215)
         then char_of (n + 32) else c)"

definition py_lower :: "string \<Rightarrow> string" where
  "py_lower s = map py_lower_char s"

text \<open>\<open>str.strip()\<close> removes leading and trailing characters for which \<open>isspace()\<close> holds.\<close>

definition py_isspace :: "char \<Rightarrow> bool" where
  "py_isspace c = ((of_char c :: nat) \<in> {9, 10, 11, 12, 13, 28, 29, 30, 31, 32, 133, 160})"

definition py_strip :: "string \<Rightarrow> string" where
  "py_strip s = rev (dropWhile py_isspace (rev (dropWhile py_isspace s)))"

definition endswith :: "string \<Rightarrow> string \<Rightarrow> bool" where
  "endswith s suffix = (length suffix \<le> length s \<and> drop (length s - length suffix) s = suffix)"

text \<open>\<open>s.split('@')[0]\<close>: the part of \<open>s\<close> before its first \<open>@\<close>, all of \<open>s\<close> if it has none.\<close>

definition split_at_first :: "string \<Rightarrow> string" where
  "split_at_first s = takeWhile (\<lambda>c. c \<noteq> CHR ''@'') s"

text \<open>Reading a decimal rendering back (the inverse of \<open>str_int\<close>).\<close>

definition int_of_str :: "string \<Rightarrow> int" where
  "int_of_str s = (case s of [] \<Rightarrow> 0
                   | c # r \<Rightarrow> if c = CHR ''-'' then - int (nat_of_digits r) else int (nat_of_digits s))"

section \<open>Decimal rendering\<close>

lemma digit_char_is_digit: "d < 10 \<Longrightarrow> is_digit (digit_char d)"
  by (simp add: is_digit_def digit_char_def)

lemma digit_val_digit_char: "d < 10 \<Longrightarrow> digit_val (digit_char d) = d"
  by (simp add: digit_val_def digit_char_def)

lemma str_nat_digits: "list_all is_digit (str_nat n)"
proof (induction n rule: str_nat.induct)
  case (1 n)
  show ?case
  proof (cases "n < 10")
    case True
    then show ?thesis by (simp add: str_nat.simps [of n] digit_char_is_digit)
  next
    case False
    with 1 show ?thesis by (simp add: str_nat.simps [of n] digit_char_is_digit)
  qed
qed

lemma str_nat_nonempty: "str_nat n \<noteq> []"
  by (subst str_nat.simps) simp

lemma nat_of_digits_snoc: "nat_of_digits (s @ [c]) = 10 * nat_of_digits s + digit_val c"
  by (simp add: nat_of_digits_def)

lemma nat_of_digits_str_nat: "nat_of_digits (str_nat n) = n"
proof (induction n rule: str_nat.induct)
  case (1 n)
  show ?case
  proof (cases "n < 10")
    case True
    then show ?thesis
      by (simp add: str_nat.simps [of n] nat_of_digits_def digit_val_digit_char)
  next
    case False
    with 1 show ?thesis
      by (simp add: str_nat.simps [of n] nat_of_digits_snoc digit_val_digit_char)
  qed
qed

lemma str_nat_length: "10 ^ k \<le> n \<Longrightarrow> n < 10 ^ Suc k \<Longrightarrow> length (str_nat n) = Suc k"
proof (induction k arbitrary: n)
  case 0
  then show ?case by (simp add: str_nat.simps [of n])
next
  case (Suc k)
  have "(10::nat) \<le> 10 ^ Suc k" by simp
  with Suc.prems have big: "\<not> n < 10" by linarith
  from Suc.prems have lo: "10 * 10 ^ k \<le> n" and hi: "n < 10 * 10 ^ Suc k" by simp_all
  from lo have "10 ^ k \<le> n div 10" by linarith
  moreover from hi have "n div 10 < 10 ^ Suc k" by linarith
  ultimately have "length (str_nat (n div 10)) = Suc k" by (rule Suc.IH)
  with big show ?case by (simp add: str_nat.simps [of n])
qed

lemma randint_range: "a \<le> b \<Longrightarrow> a \<le> randint a b e \<and> randint a b e \<le> b"
proof -
  assume ab: "a \<le> b"
  then have "0 < nat (b - a + 1)" by simp
  then have "e mod nat (b - a + 1) < nat (b - a + 1)" by (rule mod_less_divisor)
  then have "int (e mod nat (b - a + 1)) < b - a + 1" using ab by linarith
  then show ?thesis by (simp add: randint_def)
qed

lemma str_nat_hd_digit: "\<exists>c r. str_nat n = c # r \<and> is_digit c"
proof -
  obtain c r where cr: "str_nat n = c # r" using str_nat_nonempty [of n] by (cases "str_nat n") auto
  moreover have "list_all is_digit (str_nat n)" by (rule str_nat_digits)
  ultimately show ?thesis by simp
qed

lemma int_of_str_str_int: "int_of_str (str_int i) = i"
proof (cases "i < 0")
  case True
  then show ?thesis by (simp add: int_of_str_def str_int_def nat_of_digits_str_nat)
next
  case False
  obtain c r where cr: "str_nat (nat i) = c # r" and d: "is_digit c"
    using str_nat_hd_digit by blast
  from d have "c \<noteq> CHR ''-''" by (auto simp: is_digit_def)
  moreover have "nat_of_digits (str_nat (nat i)) = nat i" by (rule nat_of_digits_str_nat)
  ultimately show ?thesis using False cr by (simp add: int_of_str_def str_int_def)
qed

lemma str_int_inject: "str_int i = str_int j \<Longrightarrow> i = j"
  by (metis int_of_str_str_int)

section \<open>The User model (app/models/user.py)\<close>

text \<open>
  One record per row of the \<open>users\<close> table, with the nullable columns as options.
  The store-managed columns \<open>created_at\<close>, \<open>updated_at\<close> and \<open>school_id\<close> are never
  read by the operations below and are left out.
\<close>

record user =
  uid :: nat
  email :: string
  username :: string
  password_hash :: "string option"
  first_name :: string
  last_name :: string
  profile_picture :: "string option"
  phone_number :: "string option"
  role :: string
  is_active :: bool
  is_verified :: bool
  otp_code :: "string option"
  otp_expires_at :: "int option"
  otp_attempts :: "int option"
  google_id :: "string option"
  last_login :: "int option"

subsection \<open>OTP lifecycle\<close>

definition generate_otp :: "nat \<Rightarrow> int \<Rightarrow> user \<Rightarrow> string \<times> user" where
  "generate_otp entropy now self =
     (let code = str_int (randint 100000 999999 entropy)
      in (code, self\<lparr>otp_code := Some code,
                      otp_expires_at := Some (now + timedelta_minutes 10),
                      otp_attempts := Some 0\<rparr>))"

text \<open>
  \<open>verify_otp\<close> returns the pair \<open>(ok, message)\<close> and the mutated user. Comparing a
  null attempt counter with 5 raises \<open>TypeError\<close> in Python; that is the \<open>Inl\<close> branch.
\<close>

definition verify_otp :: "int \<Rightarrow> user \<Rightarrow> string \<Rightarrow> error + ((bool \<times> string) \<times> user)" where
  "verify_otp now self provided_otp =
     (if \<not> truthy (otp_code self) then
        Inr ((False, ''No OTP found. Please request a new one.''), self)
      else case otp_expires_at self of
        None \<Rightarrow> Inr ((False, ''No OTP found. Please request a new one.''), self)
      | Some expires \<Rightarrow>
        if now > expires then
          Inr ((False, ''OTP has expired. Please request a new one.''), self)
        else case otp_attempts self of
          None \<Rightarrow> Inl TypeError
        | Some attempts \<Rightarrow>
          if attempts \<ge> 5 then
            Inr ((False, ''Too many failed attempts. Please request a new OTP.''), self)
          else if otp_code self = Some provided_otp then
            Inr ((True, ''Email verified successfully!''),
                 self\<lparr>is_verified := True, otp_code := None,
                      otp_expires_at := None, otp_attempts := Some 0\<rparr>)
          else
            Inr ((False, ''Invalid OTP. '' @ str_int (5 - (attempts + 1)) @ '' attempts remaining.''),
                 self\<lparr>otp_attempts := Some (attempts + 1)\<rparr>))"

definition clear_otp :: "user \<Rightarrow> user" where
  "clear_otp self = self\<lparr>otp_code := None, otp_expires_at := None, otp_attempts := Some 0\<rparr>"

text \<open>The user left by a successful verification (lines 115 to 118 of \<open>user.py\<close>).\<close>

definition otp_consumed :: "user \<Rightarrow> user" where
  "otp_consumed self = self\<lparr>is_verified := True, otp_code := None,
                            otp_expires_at := None, otp_attempts := Some 0\<rparr>"

section \<open>Validators (app/utils/validators.py)\<close>

definition is_alpha :: "char \<Rightarrow> bool" where
  "is_alpha c = (let n = (of_char c :: nat) in (97 \<le> n \<and> n \<le> 122) \<or> (65 \<le> n \<and> n \<le> 90))"

definition local_char :: "char \<Rightarrow> bool" where
  "local_char c = (is_alpha c \<or> is_digit c \<or> c \<in> set ''._%+-'')"

definition domain_char :: "char \<Rightarrow> bool" where
  "domain_char c = (is_alpha c \<or> is_digit c \<or> c \<in> set ''.-'')"

text \<open>
  The pattern \<^verbatim>\<open>[a-zA-Z0-9._%+-]+@[a-zA-Z0-9.-]+\.[a-zA-Z]{2,}\<close> matches all of \<open>s\<close> when
  \<open>s\<close> splits at an \<open>@\<close> in position \<open>i\<close> and a dot in position \<open>j\<close> into a non-empty
  local part, a non-empty host and at least two letters.
\<close>

definition email_pattern :: "string \<Rightarrow> bool" where
  "email_pattern s =
     list_ex (\<lambda>i. s ! i = CHR ''@'' \<and> 0 < i \<and> list_all local_char (take i s) \<and>
       list_ex (\<lambda>j. i + 1 < j \<and> s ! j = CHR ''.'' \<and>
                     list_all domain_char (take (j - (i + 1)) (drop (i + 1) s)) \<and>
                     2 \<le> length s - (j + 1) \<and> list_all is_alpha (drop (j + 1) s))
         [0..<length s])
       [0..<length s]"

text \<open>
  \<open>re.match\<close> with \<open>^\<close> and \<open>$\<close>: the pattern must match from the start up to the end of
  the string, or up to a single newline that ends the string.
\<close>

definition re_match_to_end :: "(string \<Rightarrow> bool) \<Rightarrow> string \<Rightarrow> bool" where
  "re_match_to_end pat s = (pat s \<or> (s \<noteq> [] \<and> last s = CHR 0x0A \<and> pat (butlast s)))"

definition validate_email :: "string \<Rightarrow> bool" where
  "validate_email addr = re_match_to_end email_pattern addr"

definition validate_password :: "string \<Rightarrow> bool" where
  "validate_password password = (if length password < 8 then False else True)"

definition allowed_student_domains :: "string list" where
  "allowed_student_domains = [''@students.kcau.ac.ke'', ''@student.kcau.ac.ke'']"

definition allowed_lecturer_domains :: "string list" where
  "allowed_lecturer_domains = [''@kcau.ac.ke'', ''@staff.kcau.ac.ke'', ''@faculty.kcau.ac.ke'']"

definition validate_student_email :: "string \<Rightarrow> bool \<times> string" where
  "validate_student_email addr =
     (if \<not> validate_email addr then (False, ''Invalid email format'')
      else if list_ex (\<lambda>domain. endswith (py_lower addr) (py_lower domain)) allowed_student_domains
        then (True, ''Valid student email'')
      else (False, ''Email must be from an institutional domain (e.g., @students.kcau.ac.ke)''))"

definition validate_lecturer_email :: "string \<Rightarrow> bool \<times> string" where
  "validate_lecturer_email addr =
     (if \<not> validate_email addr then (False, ''Invalid email format'')
      else if list_ex (\<lambda>domain. endswith (py_lower addr) (py_lower domain)) allowed_lecturer_domains
        then (True, ''Valid lecturer email'')
      else (False, ''Email must be from an institutional domain (e.g., @kcau.ac.ke)''))"

definition validate_institutional_email :: "string \<Rightarrow> string \<Rightarrow> bool \<times> string" where
  "validate_institutional_email addr user_role =
     (if py_lower user_role = ''student'' then validate_student_email addr
      else if py_lower user_role = ''lecturer'' then validate_lecturer_email addr
      else (False, ''Invalid user role specified''))"

subsection \<open>Role detection (User.detect_role_from_email)\<close>

definition detect_role_from_email :: "string \<Rightarrow> string" where
  "detect_role_from_email addr =
     (if endswith addr ''@students.kcau.ac.ke'' \<or> endswith addr ''@student.kcau.ac.ke''
        then ''student''
      else if endswith addr ''@kcau.ac.ke'' \<or> endswith addr ''@staff.kcau.ac.ke''
        then ''lecturer''
      else ''student'')"

section \<open>The identity store\<close>

text \<open>
  The \<open>users\<close> table is the list of its rows in insertion order. A query
  \<open>filter_by(column=value).first()\<close> returns the first row whose column equals the value
  exactly, character by character (the comparison of a case-sensitive store). The table
  enforces the unique constraints on \<open>email\<close>, \<open>username\<close> and \<open>google_id\<close> (nulls
  excepted) when a row is inserted, and assigns the next integer key.
\<close>

type_synonym db = "user list"

definition find_by_email :: "db \<Rightarrow> string \<Rightarrow> user option" where
  "find_by_email db e = find (\<lambda>u. email u = e) db"

definition find_by_username :: "db \<Rightarrow> string \<Rightarrow> user option" where
  "find_by_username db n = find (\<lambda>u. username u = n) db"

definition find_by_google_id :: "db \<Rightarrow> string \<Rightarrow> user option" where
  "find_by_google_id db g = find (\<lambda>u. google_id u = Some g) db"

definition query_get :: "db \<Rightarrow> nat \<Rightarrow> user option" where
  "query_get db i = find (\<lambda>u. uid u = i) db"

definition next_id :: "db \<Rightarrow> nat" where
  "next_id db = Suc (fold max (map uid db) 0)"

definition unique_ok :: "db \<Rightarrow> user \<Rightarrow> bool" where
  "unique_ok db u =
     (\<not> list_ex (\<lambda>r. email r = email u) db \<and>
      \<not> list_ex (\<lambda>r. username r = username u) db \<and>
      (case google_id u of None \<Rightarrow> True
       | Some g \<Rightarrow> \<not> list_ex (\<lambda>r. google_id r = Some g) db))"

text \<open>\<open>db.session.add(user); db.session.commit()\<close> for a new object.\<close>

definition db_insert :: "db \<Rightarrow> user \<Rightarrow> error + (user \<times> db)" where
  "db_insert db u =
     (if unique_ok db u
      then (let u' = u\<lparr>uid := next_id db\<rparr> in Inr (u', db @ [u']))
      else Inl IntegrityError)"

text \<open>
  \<open>db.session.commit()\<close> after mutating a loaded object: its row is replaced. The only
  constrained column an operation writes on a loaded object is \<open>google_id\<close>, and only
  after \<open>find_by_google_id\<close> found no row with that value, so this commit cannot fail.
\<close>

definition db_update :: "db \<Rightarrow> user \<Rightarrow> db" where
  "db_update db u = map (\<lambda>r. if uid r = uid u then u else r) db"

text \<open>
  A \<open>User(...)\<close> object before its keyword arguments are set. The column defaults
  (\<open>role\<close>, \<open>is_active\<close>, \<open>is_verified\<close>, \<open>otp_attempts\<close>) are filled in by the
  store at insert; no operation reads them between construction and insert, so they are
  filled in here.
\<close>

definition new_user :: user where
  "new_user = \<lparr>uid = 0, email = [], username = [], password_hash = None,
     first_name = [], last_name = [], profile_picture = None, phone_number = None,
     role = ''student'', is_active = True, is_verified = False,
     otp_code = None, otp_expires_at = None, otp_attempts = Some 0,
     google_id = None, last_login = None\<rparr>"

section \<open>External collaborators\<close>

text \<open>
  The password hasher (werkzeug), the mailer and the Google token verifier are outside the
  repository and are parameters of the operations. \<open>idinfo\<close> is the verified assertion;
  \<open>idinfo['email']\<close> raises \<open>KeyError\<close> when the key is absent.
\<close>

record idinfo =
  iss :: string
  sub :: string
  id_email :: "string option"
  given_name :: "string option"
  family_name :: "string option"
  picture :: "string option"

record env =
  generate_password_hash :: "string \<Rightarrow> string"
  check_password_hash :: "string \<Rightarrow> string \<Rightarrow> bool"
  send_otp_email :: "string \<Rightarrow> string \<Rightarrow> string \<Rightarrow> string \<Rightarrow> bool"
  verify_oauth2_token :: "string \<Rightarrow> idinfo option"

definition set_password :: "env \<Rightarrow> user \<Rightarrow> string \<Rightarrow> user" where
  "set_password env self password = self\<lparr>password_hash := Some (generate_password_hash env password)\<rparr>"

text \<open>
  \<open>check_password_hash(None, password)\<close> looks for the \<open>$\<close> separators of a null hash
  and raises \<open>AttributeError\<close>.
\<close>

definition check_password :: "env \<Rightarrow> user \<Rightarrow> string \<Rightarrow> error + bool" where
  "check_password env self password =
     (case password_hash self of
        None \<Rightarrow> Inl AttributeError
      | Some h \<Rightarrow> Inr (check_password_hash env h password))"

text \<open>
  \<open>create_access_token(identity=user.id)\<close> and \<open>create_refresh_token(identity=user.id)\<close>
  are the JWT library's; a token is represented by its kind and the identity it was minted
  for.
\<close>

datatype token = AccessToken nat | RefreshToken nat

text \<open>\<open>User.to_dict\<close>, without the store-managed \<open>created_at\<close>.\<close>

record user_dict =
  d_id :: nat
  d_email :: string
  d_username :: string
  d_first_name :: string
  d_last_name :: string
  d_profile_picture :: "string option"
  d_phone_number :: "string option"
  d_role :: string
  d_is_active :: bool
  d_is_verified :: bool
  d_last_login :: "int option"

definition to_dict :: "user \<Rightarrow> user_dict" where
  "to_dict self = \<lparr>d_id = uid self, d_email = email self, d_username = username self,
     d_first_name = first_name self, d_last_name = last_name self,
     d_profile_picture = profile_picture self, d_phone_number = phone_number self,
     d_role = role self, d_is_active = is_active self, d_is_verified = is_verified self,
     d_last_login = last_login self\<rparr>"
section \<open>Authentication views (app/views/auth.py)\<close>

text \<open>
  A response is the JSON body and the HTTP status. \<open>Error status message\<close> is
  \<open>{'error': message}\<close>; \<open>Failure message e\<close> is the status 500 body
  \<open>{'error': message, 'details': str(e)}\<close> of an exception handler.
\<close>

datatype response =
    Error nat string
  | Failure string error
  | RegisteredUnsent
  | Registered string nat
  | VerificationRequired nat
  | OtpResent
  | Authenticated string user_dict token token

fun status :: "response \<Rightarrow> nat" where
  "status (Error code _) = code"
| "status (Failure _ _) = 500"
| "status RegisteredUnsent = 201"
| "status (Registered _ _) = 201"
| "status (VerificationRequired _) = 401"
| "status OtpResent = 200"
| "status (Authenticated _ _ _ _) = 200"

text \<open>
  Request bodies. A key is absent (\<open>None\<close>) or holds a string; the user id of the OTP
  views is absent or holds a non-negative integer within the range of the store's integer
  keys (beyond it the driver raises and the views answer 500, with the table unchanged).
\<close>

record register_request =
  req_email :: "string option"
  req_username :: "string option"
  req_password :: "string option"
  req_first_name :: "string option"
  req_last_name :: "string option"
  req_phone_number :: "string option"

record otp_request =
  req_user_id :: "nat option"
  req_otp_code :: "string option"

record login_request =
  login_email :: "string option"
  login_password :: "string option"

text \<open>The loop over \<open>required_fields\<close>: the first field that is absent or empty.\<close>

fun first_missing :: "(string \<times> string option) list \<Rightarrow> string option" where
  "first_missing [] = None"
| "first_missing ((field, v) # rest) = (if \<not> truthy v then Some field else first_missing rest)"

text \<open>\<open>data[field]\<close> for a field that passed the required-field check.\<close>

fun str_of :: "string option \<Rightarrow> string" where
  "str_of None = []"
| "str_of (Some s) = s"

definition register :: "env \<Rightarrow> nat \<Rightarrow> int \<Rightarrow> db \<Rightarrow> register_request \<Rightarrow> response \<times> db" where
  "register env entropy now db data =
     (case first_missing [(''email'', req_email data), (''username'', req_username data),
                          (''password'', req_password data), (''first_name'', req_first_name data),
                          (''last_name'', req_last_name data)] of
        Some field \<Rightarrow> (Error 400 (field @ '' is required''), db)
      | None \<Rightarrow>
        let addr = str_of (req_email data);
            password = str_of (req_password data);
            user_role = detect_role_from_email addr;
            (is_valid, message) = validate_institutional_email addr user_role
        in if \<not> is_valid then (Error 400 message, db)
           else if \<not> validate_password password then
             (Error 400 ''Password must be at least 8 characters long'', db)
           else if find_by_email db addr \<noteq> None then (Error 409 ''Email already registered'', db)
           else if find_by_username db (str_of (req_username data)) \<noteq> None then
             (Error 409 ''Username already taken'', db)
           else
             let user = new_user\<lparr>email := py_strip (py_lower addr),
                                  username := py_strip (str_of (req_username data)),
                                  first_name := py_strip (str_of (req_first_name data)),
                                  last_name := py_strip (str_of (req_last_name data)),
                                  phone_number := Some (py_strip (str_of (req_phone_number data))),
                                  role := user_role,
                                  is_verified := False\<rparr>;
                 user = set_password env user password;
                 (otp, user) = generate_otp entropy now user
             in case db_insert db user of
                  Inl e \<Rightarrow> (Failure ''Registration failed'' e, db)
                | Inr (user, db') \<Rightarrow>
                    if \<not> send_otp_email env (email user) otp
                           (first_name user @ '' '' @ last_name user) user_role
                    then (RegisteredUnsent, db')
                    else (Registered user_role (uid user), db'))"

text \<open>
  The view \<open>verify_otp\<close>. The clock is read once inside \<open>User.verify_otp\<close> (\<open>now\<close>) and
  once for \<open>last_login\<close> (\<open>now_login\<close>). A user id of 0 is falsy.
\<close>

definition verify_otp_view :: "int \<Rightarrow> int \<Rightarrow> db \<Rightarrow> otp_request \<Rightarrow> response \<times> db" where
  "verify_otp_view now now_login db data =
     (case req_user_id data of
        None \<Rightarrow> (Error 400 ''User ID and OTP code are required'', db)
      | Some user_id \<Rightarrow>
        if user_id = 0 \<or> \<not> truthy (req_otp_code data) then
          (Error 400 ''User ID and OTP code are required'', db)
        else case query_get db user_id of
          None \<Rightarrow> (Error 404 ''User not found'', db)
        | Some user \<Rightarrow>
          if is_verified user then (Error 400 ''Email already verified'', db)
          else case verify_otp now user (str_of (req_otp_code data)) of
            Inl e \<Rightarrow> (Failure ''OTP verification failed'' e, db)
          | Inr ((is_valid, message), user) \<Rightarrow>
              if \<not> is_valid then (Error 400 message, db_update db user)
              else
                let user = user\<lparr>last_login := Some now_login\<rparr>
                in (Authenticated ''Email verified successfully! Welcome to MySchool!''
                      (to_dict user) (AccessToken (uid user)) (RefreshToken (uid user)),
                    db_update db user))"

definition resend_otp :: "env \<Rightarrow> nat \<Rightarrow> int \<Rightarrow> db \<Rightarrow> otp_request \<Rightarrow> response \<times> db" where
  "resend_otp env entropy now db data =
     (case req_user_id data of
        None \<Rightarrow> (Error 400 ''User ID is required'', db)
      | Some user_id \<Rightarrow>
        if user_id = 0 then (Error 400 ''User ID is required'', db)
        else case query_get db user_id of
          None \<Rightarrow> (Error 404 ''User not found'', db)
        | Some user \<Rightarrow>
          if is_verified user then (Error 400 ''Email already verified'', db)
          else
            let (otp, user) = generate_otp entropy now user;
                db' = db_update db user
            in if \<not> send_otp_email env (email user) otp
                      (first_name user @ '' '' @ last_name user) (role user)
               then (Error 500 ''Failed to send OTP email'', db')
               else (OtpResent, db'))"

definition login :: "env \<Rightarrow> int \<Rightarrow> db \<Rightarrow> login_request \<Rightarrow> response \<times> db" where
  "login env now db data =
     (if \<not> truthy (login_email data) \<or> \<not> truthy (login_password data) then
        (Error 400 ''Email and password are required'', db)
      else
        let addr = py_strip (py_lower (str_of (login_email data)))
        in if \<not> validate_email addr then (Error 400 ''Invalid email format'', db)
           else case find_by_email db addr of
             None \<Rightarrow> (Error 401 ''Invalid email or password'', db)
           | Some user \<Rightarrow>
             (case check_password env user (str_of (login_password data)) of
                Inl e \<Rightarrow> (Failure ''Login failed'' e, db)
              | Inr matches \<Rightarrow>
                if \<not> matches then (Error 401 ''Invalid email or password'', db)
                else if \<not> is_active user then (Error 401 ''Account is deactivated'', db)
                else if \<not> is_verified user then (VerificationRequired (uid user), db)
                else
                  let user = user\<lparr>last_login := Some now\<rparr>
                  in (Authenticated ''Login successful'' (to_dict user)
                        (AccessToken (uid user)) (RefreshToken (uid user)),
                      db_update db user)))"
subsection \<open>The username loop of the Google views\<close>

text \<open>
  The loop of lines 325 to 327 runs while the candidate is taken. It terminates because the
  candidates \<open>original_username + str(counter)\<close> are pairwise distinct and the table is
  finite: the number of taken candidates from \<open>counter\<close> on decreases.
\<close>

lemma candidates_finite: "finite {k. original @ str_int k \<in> S}" if "finite S"
proof -
  have "inj (\<lambda>k. original @ str_int k)" by (auto simp: inj_def dest: str_int_inject)
  then have "finite ((\<lambda>k. original @ str_int k) -` S)" using that by (rule finite_vimageI [rotated])
  then show ?thesis by (simp add: vimage_def)
qed

definition taken_from :: "db \<Rightarrow> string \<Rightarrow> int \<Rightarrow> int set" where
  "taken_from db original counter = {k. counter \<le> k \<and> original @ str_int k \<in> username ` set db}"

lemma taken_from_finite: "finite (taken_from db original counter)"
proof -
  have "taken_from db original counter \<subseteq> {k. original @ str_int k \<in> username ` set db}"
    by (auto simp: taken_from_def)
  moreover have "finite {k. original @ str_int k \<in> username ` set db}"
    by (rule candidates_finite) simp
  ultimately show ?thesis by (rule finite_subset)
qed

lemma find_by_username_taken: "find_by_username db n \<noteq> None \<longleftrightarrow> n \<in> username ` set db"
  by (auto simp: find_by_username_def find_None_iff)

function unique_username :: "db \<Rightarrow> string \<Rightarrow> string \<Rightarrow> int \<Rightarrow> string" where
  "unique_username db original_username name counter =
     (if find_by_username db name \<noteq> None
      then unique_username db original_username (original_username @ str_int counter) (counter + 1)
      else name)"
  by pat_completeness auto
termination
proof (relation "measure (\<lambda>(db, original, name, counter).
          card (taken_from db original counter) + (if find_by_username db name \<noteq> None then 1 else 0))")
  show "wf (measure (\<lambda>(db, original, name, counter).
          card (taken_from db original counter) + (if find_by_username db name \<noteq> None then 1 else 0)))"
    by simp
next
  fix db :: db and original_username name :: string and counter :: int
  assume taken: "find_by_username db name \<noteq> None"
  let ?next = "original_username @ str_int counter"
  show "((db, original_username, ?next, counter + 1), (db, original_username, name, counter))
        \<in> measure (\<lambda>(db, original, name, counter).
          card (taken_from db original counter) + (if find_by_username db name \<noteq> None then 1 else 0))"
  proof (cases "find_by_username db ?next \<noteq> None")
    case True
    then have "?next \<in> username ` set db" by (simp only: find_by_username_taken)
    then have mem: "counter \<in> taken_from db original_username counter"
      by (simp add: taken_from_def)
    have "taken_from db original_username (counter + 1) = taken_from db original_username counter - {counter}"
      by (auto simp: taken_from_def)
    then have "card (taken_from db original_username (counter + 1))
               = card (taken_from db original_username counter) - 1"
      using mem by (simp add: taken_from_finite)
    moreover have "card (taken_from db original_username counter) > 0"
      using mem taken_from_finite [of db original_username counter] by (auto simp: card_gt_0_iff)
    ultimately show ?thesis using True taken by simp
  next
    case False
    then have "?next \<notin> username ` set db" by (simp only: find_by_username_taken simp_thms)
    then have out: "counter \<notin> taken_from db original_username counter"
      by (simp add: taken_from_def)
    have "k \<in> taken_from db original_username counter \<longleftrightarrow>
          k \<in> taken_from db original_username (counter + 1)" for k
    proof (cases "k = counter")
      case True
      with out show ?thesis by (simp add: taken_from_def)
    next
      case False
      then show ?thesis by (auto simp: taken_from_def)
    qed
    then have "taken_from db original_username (counter + 1) = taken_from db original_username counter"
      by blast
    then show ?thesis using False taken by simp
  qed
qed

declare unique_username.simps [simp del]

definition username_taken :: "db \<Rightarrow> string \<Rightarrow> bool" where
  "username_taken db n = (find_by_username db n \<noteq> None)"

text \<open>
  Lines 307 to 337 of \<open>google_auth\<close> (repeated in \<open>google_callback\<close>): the account for a
  verified Google identity, and whether it is a new object that the commit has to insert.
\<close>

definition resolve_google_user ::
    "db \<Rightarrow> string \<Rightarrow> string \<Rightarrow> string \<Rightarrow> string \<Rightarrow> string \<Rightarrow> bool \<times> user" where
  "resolve_google_user db gid addr given family pic =
     (case find_by_google_id db gid of
        Some user \<Rightarrow> (False, user)
      | None \<Rightarrow>
        (case find_by_email db addr of
           Some user \<Rightarrow>
             (False, (user\<lparr>google_id := Some gid\<rparr>)
                        \<lparr>profile_picture := (if \<not> truthy (profile_picture user) then Some pic
                                             else profile_picture user)\<rparr>)
         | None \<Rightarrow>
             (True, new_user\<lparr>email := addr,
                              username := unique_username db (split_at_first addr) (split_at_first addr) 1,
                              first_name := given, last_name := family, google_id := Some gid,
                              profile_picture := Some pic, is_verified := True\<rparr>)))"

text \<open>\<open>db.session.add(user); db.session.commit()\<close> for an object that is new or loaded.\<close>

definition add_and_commit :: "db \<Rightarrow> bool \<Rightarrow> user \<Rightarrow> error + (user \<times> db)" where
  "add_and_commit db is_new u = (if is_new then db_insert db u else Inr (u, db_update db u))"

definition google_auth :: "env \<Rightarrow> int \<Rightarrow> db \<Rightarrow> string option \<Rightarrow> response \<times> db" where
  "google_auth env now db token =
     (if \<not> truthy token then (Error 400 ''Google token is required'', db)
      else case verify_oauth2_token env (str_of token) of
        None \<Rightarrow> (Error 401 ''Invalid Google token'', db)
      | Some info \<Rightarrow>
        if iss info \<notin> set [''accounts.google.com'', ''https://accounts.google.com''] then
          (Error 401 ''Invalid Google token'', db)
        else case id_email info of
          None \<Rightarrow> (Failure ''Google authentication failed'' KeyError, db)
        | Some addr \<Rightarrow>
          let (is_new, user) = resolve_google_user db (sub info) addr
                                 (str_of (given_name info)) (str_of (family_name info))
                                 (str_of (picture info));
              user = user\<lparr>last_login := Some now\<rparr>
          in case add_and_commit db is_new user of
               Inl e \<Rightarrow> (Failure ''Google authentication failed'' e, db)
             | Inr (user, db') \<Rightarrow>
                 (Authenticated ''Google authentication successful'' (to_dict user)
                    (AccessToken (uid user)) (RefreshToken (uid user)), db'))"

section \<open>Notions used in the statements\<close>

text \<open>The new row of the creation branch of \<open>google_auth\<close>.\<close>

definition created_google_user :: "db \<Rightarrow> int \<Rightarrow> idinfo \<Rightarrow> string \<Rightarrow> user" where
  "created_google_user db now info addr =
     new_user\<lparr>email := addr,
              username := unique_username db (split_at_first addr) (split_at_first addr) 1,
              first_name := str_of (given_name info), last_name := str_of (family_name info),
              google_id := Some (sub info), profile_picture := Some (str_of (picture info)),
              is_verified := True, last_login := Some now, uid := next_id db\<rparr>"

text \<open>The checks of \<open>register\<close> that come before the store is consulted.\<close>

definition passes_checks :: "register_request \<Rightarrow> bool" where
  "passes_checks data =
     (first_missing [(''email'', req_email data), (''username'', req_username data),
                     (''password'', req_password data), (''first_name'', req_first_name data),
                     (''last_name'', req_last_name data)] = None
      \<and> fst (validate_institutional_email (str_of (req_email data))
                (detect_role_from_email (str_of (req_email data))))
      \<and> validate_password (str_of (req_password data)))"

text \<open>The row that \<open>register\<close> hands to the store.\<close>

definition registered_row :: "env \<Rightarrow> nat \<Rightarrow> int \<Rightarrow> register_request \<Rightarrow> user" where
  "registered_row env entropy now data =
     snd (generate_otp entropy now
       (set_password env
          (new_user\<lparr>email := py_strip (py_lower (str_of (req_email data))),
                    username := py_strip (str_of (req_username data)),
                    first_name := py_strip (str_of (req_first_name data)),
                    last_name := py_strip (str_of (req_last_name data)),
                    phone_number := Some (py_strip (str_of (req_phone_number data))),
                    role := detect_role_from_email (str_of (req_email data)),
                    is_verified := False\<rparr>)
          (str_of (req_password data))))"

text \<open>
  The state of the three OTP columns as the operations leave it: no pending code and a
  counter of 0, or a pending code with its expiry and a counter from 0 to 5.
\<close>

definition otp_state_ok :: "user \<Rightarrow> bool" where
  "otp_state_ok u =
     (case (otp_code u, otp_expires_at u, otp_attempts u) of
        (None, None, Some a) \<Rightarrow> a = 0
      | (Some c, Some e, Some a) \<Rightarrow> 0 \<le> a \<and> a \<le> 5
      | _ \<Rightarrow> False)"

text \<open>
  The tri-state unit in the words of the data model: the three columns all null, or all
  set with the counter in [0,5).
\<close>

definition otp_tri_state :: "user \<Rightarrow> bool" where
  "otp_tri_state u =
     (case (otp_code u, otp_expires_at u, otp_attempts u) of
        (None, None, None) \<Rightarrow> True
      | (Some c, Some e, Some a) \<Rightarrow> 0 \<le> a \<and> a < 5
      | _ \<Rightarrow> False)"

text \<open>
  \<open>verified_kept db db'\<close>: every row of \<open>db\<close> is still at its place in \<open>db'\<close>, under the same
  key, and is verified in \<open>db'\<close> if it was verified in \<open>db\<close>.
\<close>

definition verified_kept :: "db \<Rightarrow> db \<Rightarrow> bool" where
  "verified_kept db db' =
     (length db \<le> length db' \<and>
      list_all (\<lambda>(r, r'). uid r' = uid r \<and> (is_verified r \<longrightarrow> is_verified r')) (zip db db'))"

text \<open>A step of the table that keeps the verified rows verified and the primary keys distinct.\<close>

definition monotone_step :: "db \<Rightarrow> db \<Rightarrow> bool" where
  "monotone_step db db' = (verified_kept db db' \<and> distinct (map uid db'))"

text \<open>
  Two strings are case variants of each other when they have the same length and, place by
  place, the characters are equal or one is the lower-case form of the other.
\<close>

definition same_letter :: "char \<Rightarrow> char \<Rightarrow> bool" where
  "same_letter c d = (c = d \<or> py_lower_char c = d \<or> c = py_lower_char d)"

definition case_variant :: "string \<Rightarrow> string \<Rightarrow> bool" where
  "case_variant a b = list_all2 same_letter a b"

definition credentials :: "string \<Rightarrow> string \<Rightarrow> login_request" where
  "credentials addr password = \<lparr>login_email = Some addr, login_password = Some password\<rparr>"

text \<open>An address is in a list of domains when its lower-case form ends with one of them.\<close>

definition in_domains :: "string \<Rightarrow> string list \<Rightarrow> bool" where
  "in_domains addr domains = list_ex (\<lambda>domain. endswith (py_lower addr) (py_lower domain)) domains"

section \<open>Example data\<close>

text \<open>Concrete users, requests, assertions and collaborators for the examples.\<close>

definition sample_user :: user where
  "sample_user = \<lparr>uid = 1, email = ''jane@students.kcau.ac.ke'', username = ''jane'',
     password_hash = None, first_name = ''Jane'', last_name = ''Doe'',
     profile_picture = None, phone_number = Some [], role = ''student'', is_active = True,
     is_verified = False, otp_code = None, otp_expires_at = None, otp_attempts = Some 0,
     google_id = None, last_login = None\<rparr>"

definition pending_user :: user where
  "pending_user = sample_user\<lparr>otp_code := Some ''123456'', otp_expires_at := Some 100\<rparr>"

definition alice :: user where
  "alice = new_user\<lparr>uid := 1, email := ''alice@students.kcau.ac.ke'', username := ''alice'',
     password_hash := Some ''plain$Secret123'', first_name := ''Alice'', last_name := ''A'',
     phone_number := Some [], is_verified := True\<rparr>"

definition google_alice :: idinfo where
  "google_alice = \<lparr>iss = ''accounts.google.com'', sub = ''g-1001'',
     id_email = Some ''alice@gmail.com'', given_name = Some ''Alice'', family_name = None,
     picture = Some ''https://pic/1''\<rparr>"

definition test_env :: env where
  "test_env = \<lparr>generate_password_hash = (\<lambda>p. ''plain$'' @ p),
     check_password_hash = (\<lambda>h p. h = ''plain$'' @ p),
     send_otp_email = (\<lambda>_ _ _ _. True),
     verify_oauth2_token = (\<lambda>t. if t = ''alice-token'' then Some google_alice else None)\<rparr>"

definition linked_alice :: user where
  "linked_alice = alice\<lparr>google_id := Some ''g-1001'', profile_picture := Some ''https://pic/old''\<rparr>"

definition amy_request :: register_request where
  "amy_request = \<lparr>req_email = Some ''Amy@students.kcau.ac.ke'', req_username = Some ''amy'',
     req_password = Some ''password123'', req_first_name = Some ''Amy'',
     req_last_name = Some ''Adams'', req_phone_number = None\<rparr>"

definition amy_row :: user where
  "amy_row = new_user\<lparr>uid := 1, email := ''amy@students.kcau.ac.ke'', username := ''amy'',
     password_hash := Some ''plain$password123'', first_name := ''Amy'', last_name := ''Adams'',
     phone_number := Some [], otp_code := Some ''100007'', otp_expires_at := Some 600000000\<rparr>"

definition bob_request :: register_request where
  "bob_request = \<lparr>req_email = Some ''bob@students.kcau.ac.ke'', req_username = Some '' bob'',
     req_password = Some ''password123'', req_first_name = Some ''Bob'',
     req_last_name = Some ''Brown'', req_phone_number = None\<rparr>"

definition bob_row :: user where
  "bob_row = new_user\<lparr>uid := 1, email := ''bob@students.kcau.ac.ke'', username := ''bob'',
     password_hash := Some ''plain$password123'', first_name := ''Bob'', last_name := ''Brown'',
     phone_number := Some [], otp_code := Some ''100007'', otp_expires_at := Some 600000000\<rparr>"

definition jane_request :: register_request where
  "jane_request = \<lparr>req_email = Some ''jane@students.kcau.ac.ke'', req_username = Some ''jane'',
     req_password = Some ''password123'', req_first_name = Some ''Jane'',
     req_last_name = Some ''Doe'', req_phone_number = None\<rparr>"

definition jane_row :: user where
  "jane_row = new_user\<lparr>uid := 1, email := ''jane@students.kcau.ac.ke'', username := ''jane'',
     password_hash := Some ''plain$password123'', first_name := ''Jane'', last_name := ''Doe'',
     phone_number := Some [], otp_code := Some ''100007'', otp_expires_at := Some 600000000\<rparr>"

definition google_carol :: idinfo where
  "google_carol = \<lparr>iss = ''accounts.google.com'', sub = ''g-2002'',
     id_email = Some ''Carol@Gmail.com'', given_name = Some ''Carol'', family_name = Some ''C'',
     picture = None\<rparr>"

definition carol_env :: env where
  "carol_env = test_env\<lparr>verify_oauth2_token :=
     (\<lambda>t. if t = ''carol-token'' then Some google_carol else None)\<rparr>"

definition carol :: user where
  "carol = new_user\<lparr>uid := 1, email := ''Carol@Gmail.com'', username := ''Carol'',
     first_name := ''Carol'', last_name := ''C'', google_id := Some ''g-2002'',
     profile_picture := Some [], is_verified := True, last_login := Some 1\<rparr>"

definition dave :: user where
  "dave = new_user\<lparr>uid := 1, email := ''dave@gmail.com'', username := ''dave'',
     first_name := ''Dave'', last_name := ''D'', google_id := Some ''g-3003'',
     profile_picture := Some [], is_verified := True, last_login := Some 1\<rparr>"

section \<open>Facts about the model\<close>

lemma unique_username_step:
  "unique_username db original name counter =
     (if username_taken db name
      then unique_username db original (original @ str_int counter) (counter + 1) else name)"
  unfolding username_taken_def by (rule unique_username.simps)

lemma unique_username_spec:
  "\<not> username_taken db (unique_username db original name counter) \<and>
   (\<not> username_taken db name \<longrightarrow> unique_username db original name counter = name) \<and>
   (username_taken db name \<longrightarrow>
      (\<exists>k\<ge>counter. unique_username db original name counter = original @ str_int k \<and>
           (\<forall>j. counter \<le> j \<and> j < k \<longrightarrow> username_taken db (original @ str_int j))))"
proof (induction db original name counter rule: unique_username.induct)
  case (1 db original name counter)
  let ?next = "original @ str_int counter"
  let ?r = "unique_username db original ?next (counter + 1)"
  show ?case
  proof (cases "username_taken db name")
    case False
    then show ?thesis by (simp add: unique_username_step [of db original name counter])
  next
    case True
    then have unfold: "unique_username db original name counter = ?r"
      by (simp add: unique_username_step [of db original name counter])
    have taken: "find_by_username db name \<noteq> None" using True unfolding username_taken_def .
    have IH: "\<not> username_taken db ?r \<and>
       (\<not> username_taken db ?next \<longrightarrow> ?r = ?next) \<and>
       (username_taken db ?next \<longrightarrow>
         (\<exists>k\<ge>counter + 1. ?r = original @ str_int k \<and>
           (\<forall>j. counter + 1 \<le> j \<and> j < k \<longrightarrow> username_taken db (original @ str_int j))))"
      using "1.IH" [OF taken] unfolding username_taken_def .
    have ex: "\<exists>k\<ge>counter. ?r = original @ str_int k \<and>
           (\<forall>j. counter \<le> j \<and> j < k \<longrightarrow> username_taken db (original @ str_int j))"
    proof (cases "username_taken db ?next")
      case False
      with IH have "?r = original @ str_int counter" by blast
      moreover have "\<forall>j. counter \<le> j \<and> j < counter \<longrightarrow> username_taken db (original @ str_int j)"
        by auto
      ultimately show ?thesis by blast
    next
      case nextTaken: True
      with IH obtain k where k: "counter + 1 \<le> k" "?r = original @ str_int k"
          "\<forall>j. counter + 1 \<le> j \<and> j < k \<longrightarrow> username_taken db (original @ str_int j)"
        by blast
      have "username_taken db (original @ str_int j)" if "counter \<le> j" "j < k" for j
      proof (cases "j = counter")
        case True
        with nextTaken show ?thesis by simp
      next
        case False
        with that have "counter + 1 \<le> j" by simp
        with k(3) that show ?thesis by blast
      qed
      moreover from k(1) have "counter \<le> k" by simp
      ultimately show ?thesis using k(2) by blast
    qed
    from IH have "\<not> username_taken db ?r" by blast
    with ex True show ?thesis unfolding unfold by blast
  qed
qed

lemma str_int_small:
  "str_int 0 = ''0''" "str_int 1 = ''1''" "str_int 2 = ''2''" "str_int 3 = ''3''" "str_int 4 = ''4''"
  by (simp_all add: str_int_def str_nat.simps digit_char_def char_of_eq_iff)

lemma otp_code_shape:
  "length (str_int (randint 100000 999999 e)) = 6
   \<and> list_all is_digit (str_int (randint 100000 999999 e))
   \<and> int (nat_of_digits (str_int (randint 100000 999999 e))) = randint 100000 999999 e
   \<and> str_int (randint 100000 999999 e) \<noteq> []"
proof -
  let ?n = "randint 100000 999999 e"
  have r: "100000 \<le> ?n \<and> ?n \<le> 999999" by (rule randint_range) simp
  then have "100000 \<le> nat ?n" "nat ?n < 1000000" by linarith+
  then have "10 ^ 5 \<le> nat ?n" "nat ?n < 10 ^ Suc 5" by simp_all
  then have "length (str_nat (nat ?n)) = Suc 5" by (rule str_nat_length)
  with r show ?thesis
    by (simp add: str_int_def str_nat_digits nat_of_digits_str_nat str_nat_nonempty)
qed

section \<open>The OTP lifecycle\<close>

text \<open>
  C1. For every user, entropy and clock reading: the code returned by \<open>generate_otp\<close> is a
  string of six decimal digits whose value lies in [100000, 999999]; a \<open>verify_otp\<close> with that
  code no later than the expiry time succeeds, sets \<open>is_verified\<close>, sets \<open>otp_code\<close> and
  \<open>otp_expires_at\<close> to null and resets \<open>otp_attempts\<close> to 0; a second \<open>verify_otp\<close>
  with the same code, at any time, fails with the "No OTP found" message and changes nothing.
\<close>

theorem C1_generate_then_verify_once:
  assumes gen: "generate_otp entropy t1 u = (code, u1)"
    and fresh: "t2 \<le> t1 + timedelta_minutes 10"
  shows "length code = 6 \<and> list_all is_digit code
       \<and> 100000 \<le> nat_of_digits code \<and> nat_of_digits code \<le> 999999
       \<and> verify_otp t2 u1 code = Inr ((True, ''Email verified successfully!''), otp_consumed u1)
       \<and> is_verified (otp_consumed u1) \<and> otp_code (otp_consumed u1) = None
       \<and> otp_expires_at (otp_consumed u1) = None \<and> otp_attempts (otp_consumed u1) = Some 0
       \<and> verify_otp t3 (otp_consumed u1) code
           = Inr ((False, ''No OTP found. Please request a new one.''), otp_consumed u1)"
proof -
  let ?n = "randint 100000 999999 entropy"
  from gen have code: "code = str_int ?n"
    and u1: "u1 = u\<lparr>otp_code := Some code, otp_expires_at := Some (t1 + timedelta_minutes 10),
                     otp_attempts := Some 0\<rparr>"
    by (auto simp: generate_otp_def Let_def)
  have shape: "length code = 6" "list_all is_digit code" "int (nat_of_digits code) = ?n" "code \<noteq> []"
    using otp_code_shape [of entropy] by (simp_all add: code)
  have r: "100000 \<le> ?n \<and> ?n \<le> 999999" by (rule randint_range) simp
  with shape(3) have range: "100000 \<le> nat_of_digits code \<and> nat_of_digits code \<le> 999999"
    by linarith
  have first: "verify_otp t2 u1 code = Inr ((True, ''Email verified successfully!''), otp_consumed u1)"
    using fresh shape(4) by (simp add: verify_otp_def u1 otp_consumed_def)
  have second: "verify_otp t3 (otp_consumed u1) code
           = Inr ((False, ''No OTP found. Please request a new one.''), otp_consumed u1)"
    by (simp add: verify_otp_def otp_consumed_def)
  show ?thesis using shape(1,2) range first second by (simp add: otp_consumed_def)
qed

theorem C1_generate_then_verify_once_witness:
  "generate_otp 7 0 sample_user =
     (''100007'', sample_user\<lparr>otp_code := Some ''100007'', otp_expires_at := Some 600000000,
                               otp_attempts := Some 0\<rparr>)
   \<and> verify_otp 5 (sample_user\<lparr>otp_code := Some ''100007'', otp_expires_at := Some 600000000,
                               otp_attempts := Some 0\<rparr>) ''100007''
       = Inr ((True, ''Email verified successfully!''),
              otp_consumed (sample_user\<lparr>otp_code := Some ''100007'', otp_expires_at := Some 600000000,
                               otp_attempts := Some 0\<rparr>))
   \<and> verify_otp 6 (otp_consumed (sample_user\<lparr>otp_code := Some ''100007'',
                               otp_expires_at := Some 600000000, otp_attempts := Some 0\<rparr>)) ''100007''
       = Inr ((False, ''No OTP found. Please request a new one.''),
              otp_consumed (sample_user\<lparr>otp_code := Some ''100007'', otp_expires_at := Some 600000000,
                               otp_attempts := Some 0\<rparr>))"
proof -
  have gen: "generate_otp 7 0 sample_user =
     (''100007'', sample_user\<lparr>otp_code := Some ''100007'', otp_expires_at := Some 600000000,
                               otp_attempts := Some 0\<rparr>)"
    by (simp add: generate_otp_def Let_def randint_def str_int_def str_nat.simps digit_char_def
        char_of_eq_iff timedelta_minutes_def)
  have fresh: "(5::int) \<le> 0 + timedelta_minutes 10" by (simp add: timedelta_minutes_def)
  show ?thesis using C1_generate_then_verify_once [OF gen fresh, of 6] gen by simp
qed

text \<open>
  C2. For every user with a pending, unexpired code and an attempt counter of 0: five
  \<open>verify_otp\<close> calls with wrong codes raise the counter by one each and report 4, 3, 2, 1
  and 0 remaining attempts in that order; the sixth call fails with the lock message whatever
  code is submitted (the stored code included) and leaves the counter at 5.
\<close>

theorem C2_five_wrong_then_locked:
  assumes code: "otp_code u = Some c" "c \<noteq> []"
    and expiry: "otp_expires_at u = Some ex"
    and fresh: "otp_attempts u = Some 0"
    and unexpired: "t1 \<le> ex" "t2 \<le> ex" "t3 \<le> ex" "t4 \<le> ex" "t5 \<le> ex" "t6 \<le> ex"
    and wrong: "w1 \<noteq> c" "w2 \<noteq> c" "w3 \<noteq> c" "w4 \<noteq> c" "w5 \<noteq> c"
  shows "verify_otp t1 u w1
           = Inr ((False, ''Invalid OTP. 4 attempts remaining.''), u\<lparr>otp_attempts := Some 1\<rparr>)
       \<and> verify_otp t2 (u\<lparr>otp_attempts := Some 1\<rparr>) w2
           = Inr ((False, ''Invalid OTP. 3 attempts remaining.''), u\<lparr>otp_attempts := Some 2\<rparr>)
       \<and> verify_otp t3 (u\<lparr>otp_attempts := Some 2\<rparr>) w3
           = Inr ((False, ''Invalid OTP. 2 attempts remaining.''), u\<lparr>otp_attempts := Some 3\<rparr>)
       \<and> verify_otp t4 (u\<lparr>otp_attempts := Some 3\<rparr>) w4
           = Inr ((False, ''Invalid OTP. 1 attempts remaining.''), u\<lparr>otp_attempts := Some 4\<rparr>)
       \<and> verify_otp t5 (u\<lparr>otp_attempts := Some 4\<rparr>) w5
           = Inr ((False, ''Invalid OTP. 0 attempts remaining.''), u\<lparr>otp_attempts := Some 5\<rparr>)
       \<and> verify_otp t6 (u\<lparr>otp_attempts := Some 5\<rparr>) submitted
           = Inr ((False, ''Too many failed attempts. Please request a new OTP.''),
                  u\<lparr>otp_attempts := Some 5\<rparr>)"
proof -
  have step: "verify_otp t (u\<lparr>otp_attempts := Some a\<rparr>) w
      = Inr ((False, ''Invalid OTP. '' @ str_int (4 - a) @ '' attempts remaining.''),
             u\<lparr>otp_attempts := Some (a + 1)\<rparr>)"
    if "t \<le> ex" "w \<noteq> c" "a < 5" for t w a
    using that code expiry by (simp add: verify_otp_def)
  have u0: "u\<lparr>otp_attempts := Some 0\<rparr> = u" using fresh by simp
  have s1: "verify_otp t1 u w1
           = Inr ((False, ''Invalid OTP. 4 attempts remaining.''), u\<lparr>otp_attempts := Some 1\<rparr>)"
    using step [of t1 w1 0] unexpired wrong u0 by (simp add: str_int_small)
  have s2: "verify_otp t2 (u\<lparr>otp_attempts := Some 1\<rparr>) w2
           = Inr ((False, ''Invalid OTP. 3 attempts remaining.''), u\<lparr>otp_attempts := Some 2\<rparr>)"
    using step [of t2 w2 1] unexpired wrong by (simp add: str_int_small)
  have s3: "verify_otp t3 (u\<lparr>otp_attempts := Some 2\<rparr>) w3
           = Inr ((False, ''Invalid OTP. 2 attempts remaining.''), u\<lparr>otp_attempts := Some 3\<rparr>)"
    using step [of t3 w3 2] unexpired wrong by (simp add: str_int_small)
  have s4: "verify_otp t4 (u\<lparr>otp_attempts := Some 3\<rparr>) w4
           = Inr ((False, ''Invalid OTP. 1 attempts remaining.''), u\<lparr>otp_attempts := Some 4\<rparr>)"
    using step [of t4 w4 3] unexpired wrong by (simp add: str_int_small)
  have s5: "verify_otp t5 (u\<lparr>otp_attempts := Some 4\<rparr>) w5
           = Inr ((False, ''Invalid OTP. 0 attempts remaining.''), u\<lparr>otp_attempts := Some 5\<rparr>)"
    using step [of t5 w5 4] unexpired wrong by (simp add: str_int_small)
  have s6: "verify_otp t6 (u\<lparr>otp_attempts := Some 5\<rparr>) submitted
           = Inr ((False, ''Too many failed attempts. Please request a new OTP.''),
                  u\<lparr>otp_attempts := Some 5\<rparr>)"
    using unexpired code expiry by (simp add: verify_otp_def)
  from s1 s2 s3 s4 s5 s6 show ?thesis by blast
qed

theorem C2_five_wrong_then_locked_witness:
  "verify_otp 1 pending_user ''000000''
     = Inr ((False, ''Invalid OTP. 4 attempts remaining.''), pending_user\<lparr>otp_attempts := Some 1\<rparr>)
   \<and> verify_otp 5 (pending_user\<lparr>otp_attempts := Some 4\<rparr>) ''999999''
     = Inr ((False, ''Invalid OTP. 0 attempts remaining.''), pending_user\<lparr>otp_attempts := Some 5\<rparr>)
   \<and> verify_otp 6 (pending_user\<lparr>otp_attempts := Some 5\<rparr>) ''123456''
     = Inr ((False, ''Too many failed attempts. Please request a new OTP.''),
            pending_user\<lparr>otp_attempts := Some 5\<rparr>)"
  using C2_five_wrong_then_locked [where u = pending_user and c = "''123456''" and ex = 100
      and ?t1.0 = 1 and ?t2.0 = 2 and ?t3.0 = 3 and ?t4.0 = 4 and ?t5.0 = 5 and ?t6.0 = 6
      and ?w1.0 = "''000000''" and ?w2.0 = "''111111''" and ?w3.0 = "''222222''"
      and ?w4.0 = "''333333''" and ?w5.0 = "''999999''" and submitted = "''123456''"]
  by (simp add: pending_user_def sample_user_def)

lemma find_by_email_None: "find_by_email db e = None \<longleftrightarrow> \<not> list_ex (\<lambda>r. email r = e) db"
  by (auto simp add: find_by_email_def find_None_iff list_ex_iff)

lemma find_by_google_id_None:
  "find_by_google_id db g = None \<longleftrightarrow> \<not> list_ex (\<lambda>r. google_id r = Some g) db"
  by (auto simp add: find_by_google_id_def find_None_iff list_ex_iff)

lemma username_taken_iff: "username_taken db n \<longleftrightarrow> list_ex (\<lambda>r. username r = n) db"
  by (auto simp add: username_taken_def find_by_username_def find_None_iff list_ex_iff)

section \<open>Federated sign-in\<close>

text \<open>
  C7. The username loop is a total function of the (finite) table, so it terminates and is
  deterministic. When \<open>google_auth\<close> creates a new account (no row has the Google id or the
  email), the row it inserts carries the username computed by the loop from the local part
  \<open>name\<close> of the email: a username no row has, equal to \<open>name\<close> when that is free and
  otherwise to \<open>name\<close> followed by the least \<open>k \<ge> 1\<close> in decimal such that every
  candidate with a smaller suffix is taken.
\<close>

theorem C7_username_collision_resolution:
  assumes token: "truthy token" "verify_oauth2_token env (str_of token) = Some info"
    and issuer: "iss info = ''accounts.google.com'' \<or> iss info = ''https://accounts.google.com''"
    and addr: "id_email info = Some addr"
    and unknown: "find_by_google_id db (sub info) = None" "find_by_email db addr = None"
    and name: "name = split_at_first addr"
  shows "google_auth env now db token
           = (Authenticated ''Google authentication successful''
                (to_dict (created_google_user db now info addr))
                (AccessToken (next_id db)) (RefreshToken (next_id db)),
              db @ [created_google_user db now info addr])
       \<and> username (created_google_user db now info addr) = unique_username db name name 1
       \<and> \<not> username_taken db (unique_username db name name 1)
       \<and> (\<not> username_taken db name \<longrightarrow> unique_username db name name 1 = name)
       \<and> (username_taken db name \<longrightarrow>
            (\<exists>k\<ge>1. unique_username db name name 1 = name @ str_int k \<and>
               (\<forall>j. 1 \<le> j \<and> j < k \<longrightarrow> username_taken db (name @ str_int j))))"
proof -
  let ?r = "unique_username db name name 1"
  note spec = unique_username_spec [of db name name 1]
  from spec have free: "\<not> username_taken db ?r" by blast
  let ?u = "new_user\<lparr>email := addr, username := ?r,
              first_name := str_of (given_name info), last_name := str_of (family_name info),
              google_id := Some (sub info), profile_picture := Some (str_of (picture info)),
              is_verified := True, last_login := Some now\<rparr>"
  have ok: "unique_ok db ?u"
    using unknown free
    by (simp add: unique_ok_def find_by_email_None find_by_google_id_None username_taken_iff)
  have ins: "db_insert db ?u = Inr (?u\<lparr>uid := next_id db\<rparr>, db @ [?u\<lparr>uid := next_id db\<rparr>])"
    using ok by (simp add: db_insert_def Let_def)
  have created: "?u\<lparr>uid := next_id db\<rparr> = created_google_user db now info addr"
    by (simp add: created_google_user_def name)
  have res: "resolve_google_user db (sub info) addr (str_of (given_name info))
               (str_of (family_name info)) (str_of (picture info))
             = (True, new_user\<lparr>email := addr, username := ?r,
                  first_name := str_of (given_name info), last_name := str_of (family_name info),
                  google_id := Some (sub info), profile_picture := Some (str_of (picture info)),
                  is_verified := True\<rparr>)"
    using unknown by (simp add: resolve_google_user_def name)
  have run: "google_auth env now db token
           = (Authenticated ''Google authentication successful''
                (to_dict (created_google_user db now info addr))
                (AccessToken (next_id db)) (RefreshToken (next_id db)),
              db @ [created_google_user db now info addr])"
    using token issuer addr ins
    by (auto simp add: google_auth_def res add_and_commit_def created [symmetric])
  have uname: "username (created_google_user db now info addr) = ?r"
    by (simp add: created_google_user_def name)
  from run uname spec show ?thesis by blast
qed

lemmas str_int_eval = str_int_def str_nat.simps digit_char_def char_of_eq_iff

theorem C7_username_collision_resolution_witness:
  "unique_username [alice] ''alice'' ''alice'' 1 = ''alice1''
   \<and> username (created_google_user [alice] 50 google_alice ''alice@gmail.com'') = ''alice1''
   \<and> snd (google_auth test_env 50 [alice] (Some ''alice-token''))
       = [alice, created_google_user [alice] 50 google_alice ''alice@gmail.com'']
   \<and> username_taken [alice] ''alice'' \<and> \<not> username_taken [alice] ''alice1''"
proof -
  have token: "truthy (Some ''alice-token'')"
    "verify_oauth2_token test_env (str_of (Some ''alice-token'')) = Some google_alice"
    by (simp_all add: test_env_def)
  have issuer: "iss google_alice = ''accounts.google.com'' \<or> iss google_alice = ''https://accounts.google.com''"
    by (simp add: google_alice_def)
  have addr: "id_email google_alice = Some ''alice@gmail.com''" by (simp add: google_alice_def)
  have unknown: "find_by_google_id [alice] (sub google_alice) = None"
    "find_by_email [alice] ''alice@gmail.com'' = None"
    by (simp_all add: find_by_google_id_def find_by_email_def alice_def new_user_def google_alice_def)
  have name: "''alice'' = split_at_first ''alice@gmail.com''" by (simp add: split_at_first_def)
  have taken: "username_taken [alice] ''alice''" "\<not> username_taken [alice] ''alice1''"
    by (simp_all add: username_taken_def find_by_username_def alice_def new_user_def)
  have loop: "unique_username [alice] ''alice'' ''alice'' 1 = ''alice1''"
    by (simp add: unique_username.simps find_by_username_def alice_def new_user_def str_int_eval)
  show ?thesis
    using C7_username_collision_resolution [OF token issuer addr unknown name, of 50] loop taken
    by simp
qed

lemma find_db_update:
  "find P db = Some u \<Longrightarrow> P u' \<Longrightarrow> uid u' = uid u \<Longrightarrow> find P (db_update db u') = Some u'"
proof (induction db)
  case Nil
  then show ?case by simp
next
  case (Cons r db)
  show ?case
  proof (cases "P r")
    case True
    with Cons.prems have "r = u" by simp
    with Cons.prems show ?thesis by (simp add: db_update_def)
  next
    case False
    with Cons.prems have "find P db = Some u" by simp
    then have "find P (db_update db u') = Some u'" using Cons.prems(2,3) by (rule Cons.IH)
    with False Cons.prems(2) show ?thesis by (simp add: db_update_def)
  qed
qed

lemma map_uid_db_update: "uid u' = i \<Longrightarrow> map uid (db_update db u') = map uid db"
  by (induction db) (auto simp: db_update_def)

lemma length_db_update: "length (db_update db u) = length db"
  by (simp add: db_update_def)

lemma db_update_rows:
  "r \<in> set (db_update db u') \<Longrightarrow> r = u' \<or> (r \<in> set db \<and> uid r \<noteq> uid u')"
  by (auto simp: db_update_def split: if_splits)

lemma google_auth_known:
  assumes token: "truthy token" "verify_oauth2_token env (str_of token) = Some info"
    and issuer: "iss info = ''accounts.google.com'' \<or> iss info = ''https://accounts.google.com''"
    and addr: "id_email info = Some addr"
    and known: "find_by_google_id db (sub info) = Some u"
  shows "google_auth env now db token
         = (Authenticated ''Google authentication successful'' (to_dict (u\<lparr>last_login := Some now\<rparr>))
              (AccessToken (uid u)) (RefreshToken (uid u)),
            db_update db (u\<lparr>last_login := Some now\<rparr>))"
  using token issuer addr known
  by (auto simp add: google_auth_def resolve_google_user_def add_and_commit_def Let_def)

text \<open>
  C6. When a row already carries the Google id of a verified assertion, two runs of
  \<open>google_auth\<close> with that assertion both answer with that row's account (the same user id in
  the body and in both tokens); no row is added (the keys of the table and its length are
  unchanged), and the account's profile picture is the one it had before, in both responses
  and in the stored row. Only \<open>last_login\<close> changes.
\<close>

theorem C6_federated_login_idempotent:
  assumes token: "truthy token" "verify_oauth2_token env (str_of token) = Some info"
    and issuer: "iss info = ''accounts.google.com'' \<or> iss info = ''https://accounts.google.com''"
    and addr: "id_email info = Some addr"
    and known: "find_by_google_id db (sub info) = Some u"
    and first: "google_auth env t1 db token = (resp1, db1)"
    and second: "google_auth env t2 db1 token = (resp2, db2)"
  shows "resp1 = Authenticated ''Google authentication successful''
                   (to_dict (u\<lparr>last_login := Some t1\<rparr>)) (AccessToken (uid u)) (RefreshToken (uid u))
       \<and> resp2 = Authenticated ''Google authentication successful''
                   (to_dict (u\<lparr>last_login := Some t2\<rparr>)) (AccessToken (uid u)) (RefreshToken (uid u))
       \<and> map uid db1 = map uid db \<and> map uid db2 = map uid db
       \<and> length db1 = length db \<and> length db2 = length db
       \<and> d_profile_picture (to_dict (u\<lparr>last_login := Some t1\<rparr>)) = profile_picture u
       \<and> d_profile_picture (to_dict (u\<lparr>last_login := Some t2\<rparr>)) = profile_picture u
       \<and> (\<forall>r \<in> set db2. uid r = uid u \<longrightarrow> profile_picture r = profile_picture u)"
proof -
  let ?u1 = "u\<lparr>last_login := Some t1\<rparr>" and ?u2 = "u\<lparr>last_login := Some t2\<rparr>"
  from first google_auth_known [OF token issuer addr known, of t1]
  have r1: "resp1 = Authenticated ''Google authentication successful'' (to_dict ?u1)
                      (AccessToken (uid u)) (RefreshToken (uid u))"
    and d1: "db1 = db_update db ?u1" by simp_all
  from known have gid: "google_id u = Some (sub info)"
    by (auto simp: find_by_google_id_def dest: find_Some_iff [THEN iffD1])
  have known1: "find_by_google_id db1 (sub info) = Some ?u1"
    unfolding find_by_google_id_def d1
    by (rule find_db_update) (use known gid in \<open>simp_all add: find_by_google_id_def\<close>)
  from second google_auth_known [OF token issuer addr known1, of t2]
  have r2: "resp2 = Authenticated ''Google authentication successful'' (to_dict ?u2)
                      (AccessToken (uid u)) (RefreshToken (uid u))"
    and d2: "db2 = db_update db1 ?u2" by simp_all
  have ids: "map uid db1 = map uid db" "map uid db2 = map uid db"
    by (simp_all add: d1 d2 map_uid_db_update)
  have lens: "length db1 = length db" "length db2 = length db"
    by (simp_all add: d1 d2 length_db_update)
  have pics: "\<forall>r \<in> set db2. uid r = uid u \<longrightarrow> profile_picture r = profile_picture u"
  proof (intro ballI impI)
    fix r assume "r \<in> set db2" "uid r = uid u"
    then have "r = ?u2" using db_update_rows [of r db1 ?u2] by (auto simp: d2)
    then show "profile_picture r = profile_picture u" by simp
  qed
  show ?thesis using r1 r2 ids lens pics by (simp add: to_dict_def)
qed

theorem C6_federated_login_idempotent_witness:
  "fst (google_auth test_env 10 [linked_alice] (Some ''alice-token''))
     = Authenticated ''Google authentication successful''
         (to_dict (linked_alice\<lparr>last_login := Some 10\<rparr>)) (AccessToken 1) (RefreshToken 1)
   \<and> fst (google_auth test_env 20 (snd (google_auth test_env 10 [linked_alice] (Some ''alice-token'')))
          (Some ''alice-token''))
     = Authenticated ''Google authentication successful''
         (to_dict (linked_alice\<lparr>last_login := Some 20\<rparr>)) (AccessToken 1) (RefreshToken 1)
   \<and> length (snd (google_auth test_env 20
                (snd (google_auth test_env 10 [linked_alice] (Some ''alice-token'')))
                (Some ''alice-token''))) = 1
   \<and> d_profile_picture (to_dict (linked_alice\<lparr>last_login := Some 20\<rparr>)) = Some ''https://pic/old''"
proof -
  have token: "truthy (Some ''alice-token'')"
    "verify_oauth2_token test_env (str_of (Some ''alice-token'')) = Some google_alice"
    by (simp_all add: test_env_def)
  have issuer: "iss google_alice = ''accounts.google.com'' \<or> iss google_alice = ''https://accounts.google.com''"
    by (simp add: google_alice_def)
  have addr: "id_email google_alice = Some ''alice@gmail.com''" by (simp add: google_alice_def)
  have known: "find_by_google_id [linked_alice] (sub google_alice) = Some linked_alice"
    by (simp add: find_by_google_id_def linked_alice_def google_alice_def)
  have first: "google_auth test_env 10 [linked_alice] (Some ''alice-token'')
      = (fst (google_auth test_env 10 [linked_alice] (Some ''alice-token'')),
         snd (google_auth test_env 10 [linked_alice] (Some ''alice-token'')))" by simp
  have second: "google_auth test_env 20 (snd (google_auth test_env 10 [linked_alice] (Some ''alice-token'')))
                  (Some ''alice-token'')
      = (fst (google_auth test_env 20 (snd (google_auth test_env 10 [linked_alice] (Some ''alice-token'')))
                  (Some ''alice-token'')),
         snd (google_auth test_env 20 (snd (google_auth test_env 10 [linked_alice] (Some ''alice-token'')))
                  (Some ''alice-token'')))" by simp
  have uid: "uid linked_alice = 1" and pic: "profile_picture linked_alice = Some ''https://pic/old''"
    by (simp_all add: linked_alice_def alice_def)
  show ?thesis
    using C6_federated_login_idempotent [OF token issuer addr known first second] uid pic
    by simp
qed

lemmas validate_email_eval = validate_email_def re_match_to_end_def email_pattern_def
  local_char_def domain_char_def is_alpha_def is_digit_def Let_def

lemmas lower_eval = py_lower_def py_lower_char_def char_of_eq_iff Let_def

lemmas strip_eval = py_strip_def py_isspace_def

section \<open>Role detection against domain validation\<close>

text \<open>
  C3. Evaluation of role detection and validation on two addresses of the lecturer
  allow-list. \<open>prof@faculty.kcau.ac.ke\<close> and \<open>Prof@KCAU.AC.KE\<close> are syntactically valid
  and \<open>validate_lecturer_email\<close> accepts both, yet \<open>detect_role_from_email\<close> answers
  \<open>student\<close> for both (it has no \<open>@faculty.kcau.ac.ke\<close> suffix and compares without
  lower-casing), and validation under the detected role rejects them.
\<close>

theorem C3_lecturer_domains_disagree:
  "validate_email ''prof@faculty.kcau.ac.ke''
   \<and> validate_lecturer_email ''prof@faculty.kcau.ac.ke'' = (True, ''Valid lecturer email'')
   \<and> detect_role_from_email ''prof@faculty.kcau.ac.ke'' = ''student''
   \<and> validate_institutional_email ''prof@faculty.kcau.ac.ke''
        (detect_role_from_email ''prof@faculty.kcau.ac.ke'')
       = (False, ''Email must be from an institutional domain (e.g., @students.kcau.ac.ke)'')
   \<and> validate_email ''Prof@KCAU.AC.KE''
   \<and> validate_lecturer_email ''Prof@KCAU.AC.KE'' = (True, ''Valid lecturer email'')
   \<and> detect_role_from_email ''Prof@KCAU.AC.KE'' = ''student''
   \<and> validate_institutional_email ''Prof@KCAU.AC.KE'' (detect_role_from_email ''Prof@KCAU.AC.KE'')
       = (False, ''Email must be from an institutional domain (e.g., @students.kcau.ac.ke)'')"
proof -
  have v1: "validate_email ''prof@faculty.kcau.ac.ke''" by (simp add: validate_email_eval)
  have v2: "validate_email ''Prof@KCAU.AC.KE''" by (simp add: validate_email_eval)
  have l1: "py_lower ''prof@faculty.kcau.ac.ke'' = ''prof@faculty.kcau.ac.ke''"
    by (simp add: lower_eval)
  have l2: "py_lower ''Prof@KCAU.AC.KE'' = ''prof@kcau.ac.ke''" by (simp add: lower_eval)
  have doms: "map py_lower allowed_student_domains = allowed_student_domains"
    "map py_lower allowed_lecturer_domains = allowed_lecturer_domains"
    by (simp_all add: allowed_student_domains_def allowed_lecturer_domains_def lower_eval)
  have d1: "detect_role_from_email ''prof@faculty.kcau.ac.ke'' = ''student''"
    by (simp add: detect_role_from_email_def endswith_def)
  have d2: "detect_role_from_email ''Prof@KCAU.AC.KE'' = ''student''"
    by (simp add: detect_role_from_email_def endswith_def)
  have st: "py_lower ''student'' = ''student''" by (simp add: lower_eval)
  have a1: "validate_lecturer_email ''prof@faculty.kcau.ac.ke'' = (True, ''Valid lecturer email'')"
    using doms by (simp add: validate_lecturer_email_def v1 l1 allowed_lecturer_domains_def endswith_def)
  have a2: "validate_lecturer_email ''Prof@KCAU.AC.KE'' = (True, ''Valid lecturer email'')"
    using doms by (simp add: validate_lecturer_email_def v2 l2 allowed_lecturer_domains_def endswith_def)
  have r1: "validate_student_email ''prof@faculty.kcau.ac.ke''
       = (False, ''Email must be from an institutional domain (e.g., @students.kcau.ac.ke)'')"
    using doms by (simp add: validate_student_email_def v1 l1 allowed_student_domains_def endswith_def)
  have r2: "validate_student_email ''Prof@KCAU.AC.KE''
       = (False, ''Email must be from an institutional domain (e.g., @students.kcau.ac.ke)'')"
    using doms by (simp add: validate_student_email_def v2 l2 allowed_student_domains_def endswith_def)
  show ?thesis
    by (simp only: v1 v2 a1 a2 d1 d2 validate_institutional_email_def st r1 r2 simp_thms if_True)
qed

lemma register_checked:
  assumes "passes_checks data"
  shows "register env entropy now db data =
     (if find_by_email db (str_of (req_email data)) \<noteq> None
        then (Error 409 ''Email already registered'', db)
      else if find_by_username db (str_of (req_username data)) \<noteq> None
        then (Error 409 ''Username already taken'', db)
      else if \<not> unique_ok db (registered_row env entropy now data)
        then (Failure ''Registration failed'' IntegrityError, db)
      else if \<not> send_otp_email env (email (registered_row env entropy now data))
                    (fst (generate_otp entropy now new_user))
                    (first_name (registered_row env entropy now data) @ '' '' @
                     last_name (registered_row env entropy now data))
                    (detect_role_from_email (str_of (req_email data)))
        then (RegisteredUnsent, db @ [(registered_row env entropy now data)\<lparr>uid := next_id db\<rparr>])
      else (Registered (detect_role_from_email (str_of (req_email data))) (next_id db),
            db @ [(registered_row env entropy now data)\<lparr>uid := next_id db\<rparr>]))"
proof -
  from assms have fm: "first_missing [(''email'', req_email data), (''username'', req_username data),
                     (''password'', req_password data), (''first_name'', req_first_name data),
                     (''last_name'', req_last_name data)] = None"
    and vi: "fst (validate_institutional_email (str_of (req_email data))
                (detect_role_from_email (str_of (req_email data))))"
    and vp: "validate_password (str_of (req_password data))"
    by (simp_all add: passes_checks_def)
  from vi obtain message where
    ok: "validate_institutional_email (str_of (req_email data))
           (detect_role_from_email (str_of (req_email data))) = (True, message)"
    by (cases "validate_institutional_email (str_of (req_email data))
           (detect_role_from_email (str_of (req_email data)))") auto
  show ?thesis
    unfolding register_def fm
    using vp
    by (simp add: ok registered_row_def generate_otp_def set_password_def db_insert_def Let_def)
qed

lemma register_unchecked:
  assumes "\<not> passes_checks data"
  shows "status (fst (register env entropy now db data)) = 400 \<and> snd (register env entropy now db data) = db"
proof (cases "first_missing [(''email'', req_email data), (''username'', req_username data),
                     (''password'', req_password data), (''first_name'', req_first_name data),
                     (''last_name'', req_last_name data)]")
  case (Some field)
  then show ?thesis by (simp add: register_def)
next
  case None
  obtain ok message where
    vi: "validate_institutional_email (str_of (req_email data))
           (detect_role_from_email (str_of (req_email data))) = (ok, message)"
    by (cases "validate_institutional_email (str_of (req_email data))
           (detect_role_from_email (str_of (req_email data)))") auto
  show ?thesis
  proof (cases ok)
    case False
    then show ?thesis unfolding register_def None by (simp add: vi Let_def)
  next
    case True
    with assms None vi have "\<not> validate_password (str_of (req_password data))"
      by (simp add: passes_checks_def)
    with True show ?thesis unfolding register_def None by (simp add: vi Let_def)
  qed
qed

lemma register_created:
  assumes "register env entropy now db data = (resp, db')" and "status resp = 201"
  shows "passes_checks data \<and> find_by_email db (str_of (req_email data)) = None
       \<and> find_by_username db (str_of (req_username data)) = None
       \<and> db' = db @ [(registered_row env entropy now data)\<lparr>uid := next_id db\<rparr>]"
proof -
  have checked: "passes_checks data"
  proof (rule ccontr)
    assume "\<not> passes_checks data"
    from register_unchecked [OF this, of env entropy now db] assms show False by simp
  qed
  from assms show ?thesis
    unfolding register_checked [OF checked]
    by (auto simp add: checked split: if_splits)
qed

lemma registered_row_fields:
  "email (registered_row env entropy now data) = py_strip (py_lower (str_of (req_email data)))"
  "username (registered_row env entropy now data) = py_strip (str_of (req_username data))"
  by (simp_all add: registered_row_def generate_otp_def set_password_def Let_def)

lemma find_snoc: "find P xs = None \<Longrightarrow> P x \<Longrightarrow> find P (xs @ [x]) = Some x"
  by (induction xs) (auto split: if_splits)

lemma find_by_email_append:
  "find_by_email db e = None \<Longrightarrow> email r = e \<Longrightarrow> find_by_email (db @ [r]) e = Some r"
  by (simp add: find_by_email_def find_snoc)

lemma find_by_username_append:
  "find_by_username db n = None \<Longrightarrow> username r = n \<Longrightarrow> find_by_username (db @ [r]) n = Some r"
  by (simp add: find_by_username_def find_snoc)

lemma char_eq_char_of: "c = char_of (n::nat) \<longleftrightarrow> take_bit 8 n = of_char c"
  using char_of_eq_iff [of n c] by auto

lemmas register_eval = char_eq_char_of register_def test_env_def new_user_def
  detect_role_from_email_def endswith_def validate_institutional_email_def
  validate_student_email_def validate_email_eval lower_eval strip_eval allowed_student_domains_def
  validate_password_def find_by_email_def find_by_username_def set_password_def
  generate_otp_def randint_def str_int_eval timedelta_minutes_def db_insert_def unique_ok_def
  next_id_def

section \<open>Registration and duplicates\<close>

text \<open>
  What the duplicate checks of \<open>register\<close> achieve for requests submitted in stored form
  (email in lower case, email and username without surrounding whitespace): after a
  successful registration, a valid request with the same email is answered 409 "Email
  already registered", and one with the same username and an email no row has is answered
  409 "Username already taken"; and a valid request in stored form never reaches the
  exception handler through a uniqueness violation.
\<close>

lemma register_stored_form_duplicates:
  assumes checked: "passes_checks data"
    and first: "register env1 entropy1 t1 db0 data1 = (resp1, db)" "status resp1 = 201"
  shows "py_strip (py_lower (str_of (req_email data1))) = str_of (req_email data1) \<Longrightarrow>
         req_email data = req_email data1 \<Longrightarrow>
         register env entropy now db data = (Error 409 ''Email already registered'', db)"
    and "py_strip (str_of (req_username data1)) = str_of (req_username data1) \<Longrightarrow>
         req_username data = req_username data1 \<Longrightarrow>
         find_by_email db (str_of (req_email data)) = None \<Longrightarrow>
         register env entropy now db data = (Error 409 ''Username already taken'', db)"
proof -
  note run = register_checked [OF checked, of env entropy now db]
  from register_created [OF first]
  have free: "find_by_email db0 (str_of (req_email data1)) = None"
      "find_by_username db0 (str_of (req_username data1)) = None"
    and db: "db = db0 @ [(registered_row env1 entropy1 t1 data1)\<lparr>uid := next_id db0\<rparr>]"
    by simp_all
  show "register env entropy now db data = (Error 409 ''Email already registered'', db)"
    if stored: "py_strip (py_lower (str_of (req_email data1))) = str_of (req_email data1)"
      and same: "req_email data = req_email data1"
  proof -
    have "find_by_email db (str_of (req_email data1))
          = Some ((registered_row env1 entropy1 t1 data1)\<lparr>uid := next_id db0\<rparr>)"
      unfolding db using free(1) by (rule find_by_email_append) (simp add: registered_row_fields stored)
    then show ?thesis using same by (simp add: run)
  qed
  show "register env entropy now db data = (Error 409 ''Username already taken'', db)"
    if stored: "py_strip (str_of (req_username data1)) = str_of (req_username data1)"
      and same: "req_username data = req_username data1"
      and other: "find_by_email db (str_of (req_email data)) = None"
  proof -
    have "find_by_username db (str_of (req_username data1))
          = Some ((registered_row env1 entropy1 t1 data1)\<lparr>uid := next_id db0\<rparr>)"
      unfolding db using free(2) by (rule find_by_username_append) (simp add: registered_row_fields stored)
    then show ?thesis using same other by (simp add: run)
  qed
qed

lemma register_stored_form_no_violation:
  assumes checked: "passes_checks data"
    and stored: "py_strip (py_lower (str_of (req_email data))) = str_of (req_email data)"
      "py_strip (str_of (req_username data)) = str_of (req_username data)"
  shows "fst (register env entropy now db data) \<noteq> Failure ''Registration failed'' IntegrityError"
proof -
  let ?row = "registered_row env entropy now data"
  have gid: "google_id ?row = None"
    by (simp add: registered_row_def generate_otp_def set_password_def new_user_def Let_def)
  have "unique_ok db ?row"
    if "find_by_email db (str_of (req_email data)) = None"
       "find_by_username db (str_of (req_username data)) = None"
  proof -
    from that(1) have "\<not> list_ex (\<lambda>r. email r = email ?row) db"
      by (simp add: find_by_email_None registered_row_fields stored)
    moreover from that(2) have "\<not> list_ex (\<lambda>r. username r = username ?row) db"
      using username_taken_iff [of db "str_of (req_username data)"]
      by (simp add: username_taken_def registered_row_fields stored)
    ultimately show ?thesis by (simp add: unique_ok_def gid)
  qed
  then show ?thesis unfolding register_checked [OF checked] by auto
qed

text \<open>
  C4. Evaluation of \<open>register\<close> on duplicates that are not in stored form. The look-ups of
  lines 50 and 53 use the submitted email and username, while the row stores
  \<open>email.lower().strip()\<close> and \<open>username.strip()\<close> (\<open>login\<close> normalises the email before
  its look-up). Registering \<open>Amy@students.kcau.ac.ke\<close> stores the lower-case address; the
  same request again is answered "Username already taken" and not "Email already
  registered", and with another username the insert violates the unique constraint on
  \<open>email\<close> and the answer is the generic 500 "Registration failed" of the exception
  handler. The username \<open>" bob"\<close> is stored as \<open>bob\<close>; a second request with \<open>" bob"\<close> and
  another email is answered with that 500 and not with "Username already taken".
\<close>

theorem C4_register_unnormalised_duplicates:
  "register test_env 7 0 [] amy_request = (Registered ''student'' 1, [amy_row])
   \<and> register test_env 8 5 [amy_row] amy_request = (Error 409 ''Username already taken'', [amy_row])
   \<and> register test_env 8 5 [amy_row] (amy_request\<lparr>req_username := Some ''amy2''\<rparr>)
       = (Failure ''Registration failed'' IntegrityError, [amy_row])
   \<and> register test_env 7 0 [] bob_request = (Registered ''student'' 1, [bob_row])
   \<and> register test_env 8 5 [bob_row] (bob_request\<lparr>req_email := Some ''bob2@students.kcau.ac.ke''\<rparr>)
       = (Failure ''Registration failed'' IntegrityError, [bob_row])"
proof -
  have a1: "register test_env 7 0 [] amy_request = (Registered ''student'' 1, [amy_row])"
    by (simp add: register_eval amy_request_def amy_row_def)
  have a2: "register test_env 8 5 [amy_row] amy_request
              = (Error 409 ''Username already taken'', [amy_row])"
    by (simp add: register_eval amy_request_def amy_row_def)
  have a3: "register test_env 8 5 [amy_row] (amy_request\<lparr>req_username := Some ''amy2''\<rparr>)
              = (Failure ''Registration failed'' IntegrityError, [amy_row])"
    by (simp add: register_eval amy_request_def amy_row_def)
  have b1: "register test_env 7 0 [] bob_request = (Registered ''student'' 1, [bob_row])"
    by (simp add: register_eval bob_request_def bob_row_def)
  have b2: "register test_env 8 5 [bob_row] (bob_request\<lparr>req_email := Some ''bob2@students.kcau.ac.ke''\<rparr>)
              = (Failure ''Registration failed'' IntegrityError, [bob_row])"
    by (simp add: register_eval bob_request_def bob_row_def)
  from a1 a2 a3 b1 b2 show ?thesis by (intro conjI)
qed

section \<open>The OTP columns as a unit\<close>

lemma otp_ok_generate: "otp_state_ok (snd (generate_otp e t u))"
  by (simp add: generate_otp_def otp_state_ok_def Let_def)

lemma otp_ok_verify:
  "otp_state_ok u \<Longrightarrow> verify_otp t u c = Inr (r, u') \<Longrightarrow> otp_state_ok u'"
  by (auto simp: verify_otp_def otp_state_ok_def split: if_splits option.splits)

lemma otp_ok_clear: "otp_state_ok (clear_otp u)"
  by (simp add: clear_otp_def otp_state_ok_def)

lemma list_all_db_update: "list_all P db \<Longrightarrow> P u \<Longrightarrow> list_all P (db_update db u)"
  by (auto simp: db_update_def list_all_iff)

lemma list_all_db_insert:
  "list_all P db \<Longrightarrow> db_insert db u = Inr (u', db') \<Longrightarrow> P (u\<lparr>uid := next_id db\<rparr>) \<Longrightarrow> list_all P db'"
  by (auto simp: db_insert_def Let_def split: if_splits)

lemma find_list_all: "find Q db = Some u \<Longrightarrow> list_all P db \<Longrightarrow> P u"
  by (auto simp: find_Some_iff list_all_iff)

lemma otp_ok_last_login [simp]: "otp_state_ok (u\<lparr>last_login := t\<rparr>) = otp_state_ok u"
  by (simp add: otp_state_ok_def)

lemma otp_ok_uid [simp]: "otp_state_ok (u\<lparr>uid := i\<rparr>) = otp_state_ok u"
  by (simp add: otp_state_ok_def)

lemma otp_ok_register:
  assumes "list_all otp_state_ok db"
  shows "list_all otp_state_ok (snd (register env entropy now db data))"
proof (cases "passes_checks data")
  case False
  from register_unchecked [OF this, of env entropy now db] assms show ?thesis by simp
next
  case True
  have "otp_state_ok (registered_row env entropy now data)"
    unfolding registered_row_def by (rule otp_ok_generate)
  with assms show ?thesis by (simp add: register_checked [OF True])
qed

lemma otp_ok_verify_view:
  assumes "list_all otp_state_ok db"
  shows "list_all otp_state_ok (snd (verify_otp_view now now_login db data))"
proof -
  have "list_all otp_state_ok (snd (case verify_otp now user code of
            Inl e \<Rightarrow> (Failure ''OTP verification failed'' e, db)
          | Inr ((is_valid, message), user) \<Rightarrow>
              if \<not> is_valid then (Error 400 message, db_update db user)
              else
                let user = user\<lparr>last_login := Some now_login\<rparr>
                in (Authenticated ''Email verified successfully! Welcome to MySchool!''
                      (to_dict user) (AccessToken (uid user)) (RefreshToken (uid user)),
                    db_update db user)))"
    if "query_get db i = Some user" for i user code
  proof -
    from that assms have ok: "otp_state_ok user" unfolding query_get_def by (rule find_list_all)
    show ?thesis
    proof (cases "verify_otp now user code")
      case (Inl e)
      with assms show ?thesis by simp
    next
      case (Inr res)
      obtain is_valid message user' where res: "res = ((is_valid, message), user')"
        by (cases res) auto
      from ok Inr have "otp_state_ok user'" unfolding res by (rule otp_ok_verify)
      with assms show ?thesis by (simp add: Inr res Let_def list_all_db_update)
    qed
  qed
  with assms show ?thesis
    by (simp add: verify_otp_view_def split: option.splits)
qed

lemma otp_ok_resend:
  assumes "list_all otp_state_ok db"
  shows "list_all otp_state_ok (snd (resend_otp env entropy now db data))"
  using assms
  by (simp add: resend_otp_def Let_def case_prod_beta list_all_db_update otp_ok_generate
      split: option.splits)

lemma otp_ok_login:
  assumes "list_all otp_state_ok db"
  shows "list_all otp_state_ok (snd (login env now db data))"
proof -
  have "otp_state_ok user" if "find_by_email db a = Some user" for a user
    using that assms unfolding find_by_email_def by (rule find_list_all)
  with assms show ?thesis
    by (auto simp add: login_def Let_def list_all_db_update split: option.splits sum.splits)
qed

lemma otp_ok_resolve:
  assumes "list_all otp_state_ok db"
  shows "otp_state_ok (snd (resolve_google_user db g a given family pic))"
proof (cases "find_by_google_id db g")
  case (Some user)
  then have "otp_state_ok user" using assms unfolding find_by_google_id_def by (rule find_list_all)
  with Some show ?thesis by (simp add: resolve_google_user_def)
next
  case None
  show ?thesis
  proof (cases "find_by_email db a")
    case (Some user)
    then have "otp_state_ok user" using assms unfolding find_by_email_def by (rule find_list_all)
    with None Some show ?thesis by (simp add: resolve_google_user_def otp_state_ok_def)
  next
    case email_free: None
    with None show ?thesis by (simp add: resolve_google_user_def otp_state_ok_def new_user_def)
  qed
qed

lemma otp_ok_add_and_commit:
  assumes "list_all otp_state_ok db" "otp_state_ok u" "add_and_commit db is_new u = Inr (u', db')"
  shows "list_all otp_state_ok db'"
proof (cases is_new)
  case True
  with assms(3) have "db_insert db u = Inr (u', db')" by (simp add: add_and_commit_def)
  with assms(1) show ?thesis by (rule list_all_db_insert) (simp add: assms(2))
next
  case False
  with assms show ?thesis by (auto simp: add_and_commit_def list_all_db_update)
qed

lemma otp_ok_google_auth:
  assumes "list_all otp_state_ok db"
  shows "list_all otp_state_ok (snd (google_auth env now db token))"
proof -
  have "list_all otp_state_ok (snd (
          let (is_new, user) = resolve_google_user db g a given family pic;
              user = user\<lparr>last_login := Some now\<rparr>
          in case add_and_commit db is_new user of
               Inl e \<Rightarrow> (Failure ''Google authentication failed'' e, db)
             | Inr (user, db') \<Rightarrow>
                 (Authenticated ''Google authentication successful'' (to_dict user)
                    (AccessToken (uid user)) (RefreshToken (uid user)), db')))"
    for g a given family pic
  proof -
    obtain is_new user where res: "resolve_google_user db g a given family pic = (is_new, user)"
      by (cases "resolve_google_user db g a given family pic") auto
    from otp_ok_resolve [OF assms, of g a given family pic] have ok: "otp_state_ok user"
      by (simp add: res)
    show ?thesis
    proof (cases "add_and_commit db is_new (user\<lparr>last_login := Some now\<rparr>)")
      case (Inl e)
      with assms show ?thesis by (simp add: res)
    next
      case (Inr pair)
      obtain u' db' where pair: "pair = (u', db')" by (cases pair) auto
      from assms have "list_all otp_state_ok db'"
        by (rule otp_ok_add_and_commit [where u = "user\<lparr>last_login := Some now\<rparr>"])
           (use ok Inr pair in simp_all)
      then show ?thesis by (simp add: res Inr pair)
    qed
  qed
  with assms show ?thesis
    by (simp add: google_auth_def split: option.splits)
qed

text \<open>
  C5 (as the code has it). Every operation keeps each row in one of two states: \<open>otp_code\<close>
  and \<open>otp_expires_at\<close> both null with \<open>otp_attempts\<close> equal to 0, or both set with
  \<open>otp_attempts\<close> between 0 and 5 inclusive. This holds of \<open>generate_otp\<close>,
  \<open>verify_otp\<close> and \<open>clear_otp\<close> on a user, and of the table after \<open>register\<close>, the
  views \<open>verify_otp\<close> and \<open>resend_otp\<close>, \<open>login\<close> and \<open>google_auth\<close>.
\<close>

theorem C5_otp_columns_invariant:
  assumes table: "list_all otp_state_ok db" and row: "otp_state_ok u"
  shows "otp_state_ok (snd (generate_otp entropy now u))
       \<and> (\<forall>r u'. verify_otp now u code = Inr (r, u') \<longrightarrow> otp_state_ok u')
       \<and> otp_state_ok (clear_otp u)
       \<and> list_all otp_state_ok (snd (register env entropy now db reg))
       \<and> list_all otp_state_ok (snd (verify_otp_view now now_login db otp))
       \<and> list_all otp_state_ok (snd (resend_otp env entropy now db otp))
       \<and> list_all otp_state_ok (snd (login env now db cred))
       \<and> list_all otp_state_ok (snd (google_auth env now db token))"
  using otp_ok_generate [of entropy now u] otp_ok_verify [OF row, of now code] otp_ok_clear [of u]
    otp_ok_register [OF table, of env entropy now reg]
    otp_ok_verify_view [OF table, of now now_login otp]
    otp_ok_resend [OF table, of env entropy now otp]
    otp_ok_login [OF table, of env now cred]
    otp_ok_google_auth [OF table, of env now token]
  by blast

theorem C5_otp_columns_invariant_witness:
  "otp_state_ok pending_user
   \<and> otp_state_ok (snd (generate_otp 7 1 pending_user))
   \<and> verify_otp 1 pending_user ''000000''
       = Inr ((False, ''Invalid OTP. 4 attempts remaining.''), pending_user\<lparr>otp_attempts := Some 1\<rparr>)
   \<and> otp_state_ok (pending_user\<lparr>otp_attempts := Some 1\<rparr>)
   \<and> otp_state_ok (clear_otp pending_user)
   \<and> list_all otp_state_ok (snd (register test_env 7 1 [pending_user] amy_request))
   \<and> list_all otp_state_ok (snd (verify_otp_view 1 2 [pending_user]
          \<lparr>req_user_id = Some 1, req_otp_code = Some ''000000''\<rparr>))
   \<and> list_all otp_state_ok (snd (resend_otp test_env 7 1 [pending_user]
          \<lparr>req_user_id = Some 1, req_otp_code = Some ''000000''\<rparr>))
   \<and> list_all otp_state_ok (snd (login test_env 1 [pending_user]
          \<lparr>login_email = Some ''jane@students.kcau.ac.ke'', login_password = Some ''password123''\<rparr>))
   \<and> list_all otp_state_ok (snd (google_auth test_env 1 [pending_user] (Some ''alice-token'')))"
proof -
  have row: "otp_state_ok pending_user"
    by (simp add: otp_state_ok_def pending_user_def sample_user_def)
  then have table: "list_all otp_state_ok [pending_user]" by simp
  have step: "verify_otp 1 pending_user ''000000''
       = Inr ((False, ''Invalid OTP. 4 attempts remaining.''), pending_user\<lparr>otp_attempts := Some 1\<rparr>)"
    by (simp add: verify_otp_def pending_user_def sample_user_def str_int_small)
  show ?thesis
    using C5_otp_columns_invariant [OF table row, where entropy = 7 and now = 1
        and code = "''000000''" and env = test_env and reg = amy_request and now_login = 2
        and otp = "\<lparr>req_user_id = Some 1, req_otp_code = Some ''000000''\<rparr>"
        and cred = "\<lparr>login_email = Some ''jane@students.kcau.ac.ke'',
                     login_password = Some ''password123''\<rparr>"
        and token = "Some ''alice-token''"] row step
    by blast
qed

text \<open>
  The counter is not null when no code is pending, and it reaches 5: a fifth wrong code
  takes a row with a pending code and a counter of 4 to a counter of 5, and a successful
  verification (like \<open>clear_otp\<close>) leaves the code and the expiry null with a counter of 0.
  Neither state is "all null" or "all set with the counter in [0,5)".
\<close>

theorem C5_tri_state_counterexample:
  "otp_tri_state (pending_user\<lparr>otp_attempts := Some 4\<rparr>)
   \<and> verify_otp 5 (pending_user\<lparr>otp_attempts := Some 4\<rparr>) ''999999''
       = Inr ((False, ''Invalid OTP. 0 attempts remaining.''), pending_user\<lparr>otp_attempts := Some 5\<rparr>)
   \<and> \<not> otp_tri_state (pending_user\<lparr>otp_attempts := Some 5\<rparr>)
   \<and> otp_tri_state pending_user
   \<and> verify_otp 5 pending_user ''123456''
       = Inr ((True, ''Email verified successfully!''), otp_consumed pending_user)
   \<and> otp_code (otp_consumed pending_user) = None
   \<and> otp_attempts (otp_consumed pending_user) = Some 0
   \<and> \<not> otp_tri_state (otp_consumed pending_user)
   \<and> \<not> otp_tri_state (clear_otp pending_user)"
  by (simp add: otp_tri_state_def verify_otp_def pending_user_def sample_user_def otp_consumed_def
      clear_otp_def str_int_small)

section \<open>Verification is never undone\<close>

lemma zip_map_self: "(a, b) \<in> set (zip xs (map f xs)) \<Longrightarrow> a \<in> set xs \<and> b = f a"
  by (induction xs) auto

lemma step_same: "distinct (map uid db) \<Longrightarrow> monotone_step db db"
  by (auto simp: monotone_step_def verified_kept_def list_all_iff zip_same)

lemma step_update:
  assumes keys: "distinct (map uid db)" and row: "find Q db = Some u"
    and same: "uid u' = uid u" and mono: "is_verified u \<longrightarrow> is_verified u'"
  shows "monotone_step db (db_update db u')"
proof -
  from row have mem: "u \<in> set db" by (auto simp: find_Some_iff)
  from keys have inj: "inj_on uid (set db)" by (simp add: distinct_map)
  have "uid b = uid a \<and> (is_verified a \<longrightarrow> is_verified b)"
    if "(a, b) \<in> set (zip db (db_update db u'))" for a b
  proof -
    from that have a: "a \<in> set db" and b: "b = (if uid a = uid u' then u' else a)"
      unfolding db_update_def by (auto dest: zip_map_self)
    show ?thesis
    proof (cases "uid a = uid u'")
      case True
      with same inj a mem have "a = u" by (auto dest: inj_onD)
      with True b mono show ?thesis by simp
    next
      case False
      with b show ?thesis by simp
    qed
  qed
  moreover have "map uid (db_update db u') = map uid db"
    by (induction db) (auto simp: db_update_def)
  moreover have "length (db_update db u') = length db" by (simp add: db_update_def)
  ultimately show ?thesis using keys
    unfolding monotone_step_def verified_kept_def list_all_iff by auto
qed

lemma fold_max_upper: "a \<le> fold max xs a \<and> (\<forall>x \<in> set xs. x \<le> fold max xs a)" for a :: nat
proof (induction xs arbitrary: a)
  case Nil
  then show ?case by simp
next
  case (Cons x xs)
  from Cons.IH [of "max x a"] show ?case by auto
qed

lemma next_id_fresh: "r \<in> set db \<Longrightarrow> uid r < next_id db"
  using fold_max_upper [of 0 "map uid db"] by (auto simp: next_id_def less_Suc_eq_le)

lemma step_insert:
  assumes keys: "distinct (map uid db)" and ins: "db_insert db u = Inr (u', db')"
  shows "monotone_step db db'"
proof -
  from ins have db': "db' = db @ [u\<lparr>uid := next_id db\<rparr>]"
    by (auto simp: db_insert_def Let_def split: if_splits)
  have "next_id db \<notin> uid ` set db"
  proof
    assume "next_id db \<in> uid ` set db"
    then obtain r where "r \<in> set db" "uid r = next_id db" by auto
    with next_id_fresh [of r db] show False by simp
  qed
  with keys have "distinct (map uid db')" by (simp add: db')
  moreover have "zip db db' = zip db db" by (simp add: db' zip_append2)
  ultimately show ?thesis
    unfolding monotone_step_def verified_kept_def list_all_iff by (auto simp: zip_same db')
qed

lemma verify_otp_keeps:
  "verify_otp t u c = Inr (r, u') \<Longrightarrow> uid u' = uid u \<and> (is_verified u \<longrightarrow> is_verified u')"
  by (auto simp: verify_otp_def split: if_splits option.splits)

lemma generate_otp_keeps:
  "uid (snd (generate_otp e t u)) = uid u \<and> is_verified (snd (generate_otp e t u)) = is_verified u"
  by (simp add: generate_otp_def Let_def)

lemma step_register:
  assumes "distinct (map uid db)"
  shows "monotone_step db (snd (register env entropy now db data))"
proof (cases "passes_checks data")
  case False
  from register_unchecked [OF this, of env entropy now db] assms show ?thesis
    by (simp add: step_same)
next
  case True
  let ?row = "registered_row env entropy now data"
  show ?thesis
  proof (cases "unique_ok db ?row")
    case False
    with assms show ?thesis by (simp add: register_checked [OF True] step_same)
  next
    case ok: True
    then have "db_insert db ?row = Inr (?row\<lparr>uid := next_id db\<rparr>, db @ [?row\<lparr>uid := next_id db\<rparr>])"
      by (simp add: db_insert_def Let_def)
    with assms have "monotone_step db (db @ [?row\<lparr>uid := next_id db\<rparr>])" by (rule step_insert)
    with assms ok show ?thesis by (simp add: register_checked [OF True] step_same)
  qed
qed

lemma step_verify_view:
  assumes keys: "distinct (map uid db)"
  shows "monotone_step db (snd (verify_otp_view now now_login db data))"
proof -
  have "monotone_step db (snd (case verify_otp now user code of
            Inl e \<Rightarrow> (Failure ''OTP verification failed'' e, db)
          | Inr ((is_valid, message), user) \<Rightarrow>
              if \<not> is_valid then (Error 400 message, db_update db user)
              else
                let user = user\<lparr>last_login := Some now_login\<rparr>
                in (Authenticated ''Email verified successfully! Welcome to MySchool!''
                      (to_dict user) (AccessToken (uid user)) (RefreshToken (uid user)),
                    db_update db user)))"
    if row: "query_get db i = Some user" for i user code
  proof (cases "verify_otp now user code")
    case (Inl e)
    with keys show ?thesis by (simp add: step_same)
  next
    case (Inr res)
    obtain is_valid message user' where res: "res = ((is_valid, message), user')"
      by (cases res) auto
    from Inr have kept: "uid user' = uid user \<and> (is_verified user \<longrightarrow> is_verified user')"
      unfolding res by (rule verify_otp_keeps)
    from row have found: "find (\<lambda>u. uid u = i) db = Some user" by (simp add: query_get_def)
    have "monotone_step db (db_update db user')"
      using keys found kept by (intro step_update [where u = user]) simp_all
    moreover have "monotone_step db (db_update db (user'\<lparr>last_login := Some now_login\<rparr>))"
      using keys found kept by (intro step_update [where u = user]) simp_all
    ultimately show ?thesis by (simp add: Inr res Let_def)
  qed
  with keys show ?thesis
    by (simp add: verify_otp_view_def step_same split: option.splits)
qed

lemma step_resend:
  assumes keys: "distinct (map uid db)"
  shows "monotone_step db (snd (resend_otp env entropy now db data))"
proof -
  have "monotone_step db (db_update db (snd (generate_otp entropy now user)))"
    if row: "query_get db i = Some user" for i user
  proof -
    from row have found: "find (\<lambda>u. uid u = i) db = Some user" by (simp add: query_get_def)
    show ?thesis
      using keys found generate_otp_keeps [of entropy now user]
      by (intro step_update [where u = user]) simp_all
  qed
  with keys show ?thesis
    by (simp add: resend_otp_def Let_def case_prod_beta step_same split: option.splits)
qed

lemma step_login:
  assumes keys: "distinct (map uid db)"
  shows "monotone_step db (snd (login env now db data))"
proof -
  have inner: "monotone_step db (snd (case check_password env user pw of
                Inl e \<Rightarrow> (Failure ''Login failed'' e, db)
              | Inr matches \<Rightarrow>
                if \<not> matches then (Error 401 ''Invalid email or password'', db)
                else if \<not> is_active user then (Error 401 ''Account is deactivated'', db)
                else if \<not> is_verified user then (VerificationRequired (uid user), db)
                else
                  let user = user\<lparr>last_login := Some now\<rparr>
                  in (Authenticated ''Login successful'' (to_dict user)
                        (AccessToken (uid user)) (RefreshToken (uid user)),
                      db_update db user)))"
    if row: "find_by_email db a = Some user" for a user pw
  proof -
    from row have found: "find (\<lambda>u. email u = a) db = Some user" by (simp add: find_by_email_def)
    have upd: "monotone_step db (db_update db (user\<lparr>last_login := Some now\<rparr>))"
      using keys found by (intro step_update [where u = user]) simp_all
    show ?thesis
    proof (cases "check_password env user pw")
      case (Inl e)
      with keys show ?thesis by (simp add: step_same)
    next
      case (Inr matches)
      with keys upd show ?thesis by (simp add: step_same Let_def)
    qed
  qed
  show ?thesis
  proof (cases "find_by_email db (py_strip (py_lower (str_of (login_email data))))")
    case None
    with keys show ?thesis by (simp add: login_def Let_def step_same)
  next
    case (Some user)
    from inner [OF Some] keys Some show ?thesis by (simp add: login_def Let_def step_same)
  qed
qed

lemma step_add_and_commit:
  assumes keys: "distinct (map uid db)"
    and origin: "is_new \<or> (\<exists>Q u. find Q db = Some u \<and> uid user = uid u
                              \<and> (is_verified u \<longrightarrow> is_verified user))"
  shows "monotone_step db (snd (case add_and_commit db is_new user of
               Inl e \<Rightarrow> (Failure ''Google authentication failed'' e, db)
             | Inr (user, db') \<Rightarrow>
                 (Authenticated ''Google authentication successful'' (to_dict user)
                    (AccessToken (uid user)) (RefreshToken (uid user)), db')))"
proof (cases is_new)
  case True
  show ?thesis
  proof (cases "db_insert db user")
    case (Inl e)
    with True keys show ?thesis by (simp add: add_and_commit_def step_same)
  next
    case (Inr pair)
    obtain u' db' where pair: "pair = (u', db')" by (cases pair) auto
    from keys Inr have "monotone_step db db'" unfolding pair by (rule step_insert)
    with True Inr pair show ?thesis by (simp add: add_and_commit_def)
  qed
next
  case False
  with origin obtain Q u where "find Q db = Some u" "uid user = uid u"
      "is_verified u \<longrightarrow> is_verified user" by blast
  with keys have "monotone_step db (db_update db user)" by (intro step_update [where u = u])
  with False show ?thesis by (simp add: add_and_commit_def)
qed

lemma resolve_origin:
  "fst (resolve_google_user db g a given family pic) \<or>
   (\<exists>Q u. find Q db = Some u \<and> uid (snd (resolve_google_user db g a given family pic)) = uid u
          \<and> (is_verified u \<longrightarrow> is_verified (snd (resolve_google_user db g a given family pic))))"
proof (cases "find_by_google_id db g")
  case (Some user)
  then have "find (\<lambda>u. google_id u = Some g) db = Some user" by (simp add: find_by_google_id_def)
  with Some show ?thesis by (auto simp: resolve_google_user_def)
next
  case None
  show ?thesis
  proof (cases "find_by_email db a")
    case (Some user)
    then have "find (\<lambda>u. email u = a) db = Some user" by (simp add: find_by_email_def)
    with None Some show ?thesis by (auto simp: resolve_google_user_def)
  next
    case free: None
    with None show ?thesis by (simp add: resolve_google_user_def)
  qed
qed

lemma step_google_auth:
  assumes keys: "distinct (map uid db)"
  shows "monotone_step db (snd (google_auth env now db token))"
proof -
  have inner: "monotone_step db (snd (
          let (is_new, user) = resolve_google_user db g a given family pic;
              user = user\<lparr>last_login := Some now\<rparr>
          in case add_and_commit db is_new user of
               Inl e \<Rightarrow> (Failure ''Google authentication failed'' e, db)
             | Inr (user, db') \<Rightarrow>
                 (Authenticated ''Google authentication successful'' (to_dict user)
                    (AccessToken (uid user)) (RefreshToken (uid user)), db')))"
    for g a given family pic
  proof -
    obtain is_new user where res: "resolve_google_user db g a given family pic = (is_new, user)"
      by (cases "resolve_google_user db g a given family pic") auto
    from resolve_origin [of db g a given family pic]
    have "is_new \<or> (\<exists>Q u. find Q db = Some u \<and> uid (user\<lparr>last_login := Some now\<rparr>) = uid u
                        \<and> (is_verified u \<longrightarrow> is_verified (user\<lparr>last_login := Some now\<rparr>)))"
      by (simp add: res)
    with keys show ?thesis unfolding res by (simp add: step_add_and_commit)
  qed
  show ?thesis
  proof (cases "truthy token")
    case False
    with keys show ?thesis by (simp add: google_auth_def step_same)
  next
    case True
    show ?thesis
    proof (cases "verify_oauth2_token env (str_of token)")
      case None
      with True keys show ?thesis by (simp add: google_auth_def step_same)
    next
      case (Some info)
      show ?thesis
      proof (cases "id_email info")
        case None
        with True Some keys show ?thesis by (simp add: google_auth_def step_same)
      next
        case (Some addr)
        with True \<open>verify_oauth2_token env (str_of token) = Some info\<close> keys inner
        show ?thesis by (simp add: google_auth_def step_same)
      qed
    qed
  qed
qed

text \<open>
  C9. \<open>is_verified\<close> only goes from false to true. On a user, \<open>generate_otp\<close>, \<open>clear_otp\<close>
  and \<open>verify_otp\<close> leave a verified user verified. On a table with distinct primary keys,
  the views \<open>verify_otp\<close> and \<open>resend_otp\<close>, \<open>login\<close>, \<open>google_auth\<close> (sign-in, linking and
  creation) and \<open>register\<close> keep every row at its place under its key, keep every verified
  row verified, and keep the keys distinct (so the same holds of the next operation).
\<close>

theorem C9_is_verified_monotonic:
  assumes keys: "distinct (map uid db)"
  shows "(is_verified u \<longrightarrow>
            is_verified (snd (generate_otp entropy now u)) \<and> is_verified (clear_otp u)
            \<and> (\<forall>r u'. verify_otp now u code = Inr (r, u') \<longrightarrow> is_verified u'))
       \<and> monotone_step db (snd (verify_otp_view now now_login db otp))
       \<and> monotone_step db (snd (resend_otp env entropy now db otp))
       \<and> monotone_step db (snd (login env now db cred))
       \<and> monotone_step db (snd (google_auth env now db token))
       \<and> monotone_step db (snd (register env entropy now db reg))"
proof -
  have "is_verified (clear_otp u) = is_verified u" by (simp add: clear_otp_def)
  with generate_otp_keeps [of entropy now u] verify_otp_keeps [of now u code]
  have user: "is_verified u \<longrightarrow>
            is_verified (snd (generate_otp entropy now u)) \<and> is_verified (clear_otp u)
            \<and> (\<forall>r u'. verify_otp now u code = Inr (r, u') \<longrightarrow> is_verified u')"
    by blast
  from user step_verify_view [OF keys] step_resend [OF keys] step_login [OF keys]
    step_google_auth [OF keys] step_register [OF keys]
  show ?thesis by blast
qed

theorem C9_is_verified_monotonic_witness:
  "is_verified alice \<and> distinct (map uid [alice])
   \<and> is_verified (snd (generate_otp 7 1 alice)) \<and> is_verified (clear_otp alice)
   \<and> verify_otp 1 alice ''000000'' = Inr ((False, ''No OTP found. Please request a new one.''), alice)
   \<and> monotone_step [alice] (snd (verify_otp_view 1 2 [alice]
          \<lparr>req_user_id = Some 1, req_otp_code = Some ''000000''\<rparr>))
   \<and> monotone_step [alice] (snd (resend_otp test_env 7 1 [alice]
          \<lparr>req_user_id = Some 1, req_otp_code = Some ''000000''\<rparr>))
   \<and> monotone_step [alice] (snd (login test_env 1 [alice]
          \<lparr>login_email = Some ''Alice@students.kcau.ac.ke'', login_password = Some ''Secret123''\<rparr>))
   \<and> monotone_step [alice] (snd (google_auth test_env 1 [alice] (Some ''alice-token'')))
   \<and> monotone_step [alice] (snd (register test_env 7 1 [alice] amy_request))"
proof -
  have keys: "distinct (map uid [alice])" by simp
  have verified: "is_verified alice" by (simp add: alice_def)
  have none: "verify_otp 1 alice ''000000''
                = Inr ((False, ''No OTP found. Please request a new one.''), alice)"
    by (simp add: verify_otp_def alice_def new_user_def)
  show ?thesis
    using C9_is_verified_monotonic [OF keys, where u = alice and entropy = 7 and now = 1
        and code = "''000000''" and now_login = 2 and env = test_env
        and otp = "\<lparr>req_user_id = Some 1, req_otp_code = Some ''000000''\<rparr>"
        and cred = "\<lparr>login_email = Some ''Alice@students.kcau.ac.ke'',
                     login_password = Some ''Secret123''\<rparr>"
        and token = "Some ''alice-token''" and reg = amy_request] keys verified none
    by blast
qed

section \<open>Login\<close>

lemma py_lower_char_idem: "py_lower_char (py_lower_char c) = py_lower_char c"
proof -
  define n where "n = (of_char c :: nat)"
  define up where "up = ((65 \<le> n \<and> n \<le> 90) \<or> (192 \<le> n \<and> n \<le> 222 \<and> n \<noteq> 215))"
  have low: "py_lower_char c = (if up then char_of (n + 32) else c)"
    by (simp add: py_lower_char_def Let_def up_def n_def)
  show ?thesis
  proof (cases up)
    case False
    with low have "py_lower_char c = c" by simp
    then show ?thesis by simp
  next
    case True
    have "n < 256" by (simp add: n_def)
    with True have rng: "(97 \<le> n + 32 \<and> n + 32 \<le> 122) \<or> (224 \<le> n + 32 \<and> n + 32 < 256)"
      by (auto simp: up_def)
    then have small: "n + 32 < 256" by auto
    have roundtrip: "(of_char (char_of (n + 32)) :: nat) = n + 32" using small by simp
    have "py_lower_char (char_of (n + 32)) = char_of (n + 32)"
      using rng unfolding py_lower_char_def Let_def roundtrip by auto
    with True low show ?thesis by simp
  qed
qed

lemma same_letter_lower: "same_letter c d \<Longrightarrow> py_lower_char c = py_lower_char d"
  by (auto simp: same_letter_def py_lower_char_idem)

lemma case_variant_lower: "case_variant a b \<Longrightarrow> py_lower a = py_lower b"
  unfolding case_variant_def py_lower_def
  by (induction a b rule: list_all2_induct) (auto dest: same_letter_lower)

lemma case_variant_empty: "case_variant a b \<Longrightarrow> (a = []) = (b = [])"
  by (auto simp: case_variant_def)

lemma login_email_only_lower:
  assumes lower: "py_lower a = py_lower b" and empty: "(a = []) = (b = [])"
  shows "login env now db (credentials a pw) = login env now db (credentials b pw)"
proof (cases "a = []")
  case True
  with empty show ?thesis by (simp add: login_def credentials_def)
next
  case False
  with empty have "b \<noteq> []" by simp
  with False show ?thesis unfolding login_def credentials_def
    by (simp add: lower Let_def split: option.splits sum.splits)
qed

lemma login_wrong_password:
  assumes row: "find_by_email db (py_strip (py_lower e)) = Some u"
    and valid: "validate_email (py_strip (py_lower e))" and nonempty: "e \<noteq> []"
    and stored: "password_hash u = Some (generate_password_hash env p)"
    and hasher: "\<forall>x. check_password_hash env (generate_password_hash env p) x = (x = p)"
  shows "q \<noteq> p \<Longrightarrow> q \<noteq> [] \<Longrightarrow>
           login env now db (credentials e q) = (Error 401 ''Invalid email or password'', db)"
    and "fst (login env now db (credentials e p)) \<noteq> Error 401 ''Invalid email or password''"
proof -
  have check: "check_password env u x = Inr (x = p)" for x
    using stored hasher by (simp add: check_password_def)
  show "login env now db (credentials e q) = (Error 401 ''Invalid email or password'', db)"
    if "q \<noteq> p" "q \<noteq> []"
    using that row valid nonempty by (simp add: login_def credentials_def Let_def check)
  show "fst (login env now db (credentials e p)) \<noteq> Error 401 ''Invalid email or password''"
    using row valid nonempty by (simp add: login_def credentials_def Let_def check)
qed

text \<open>
  C8. Login ignores the letter case of the email and respects the letter case of the
  password. For every table, password and pair of addresses that are case variants of each
  other, \<open>login\<close> gives the same response and the same table for both. When the look-up of
  the lower-cased address finds a row whose hash was made from \<open>p\<close>, and the hasher accepts
  for that hash exactly the password it was made from, \<open>login\<close> with any other non-empty
  password \<open>q\<close> (so with any \<open>q\<close> that differs from \<open>p\<close> in letter case only) answers 401
  "Invalid email or password" and leaves the table as it is, while \<open>login\<close> with \<open>p\<close> does
  not give that answer.
\<close>

theorem C8_login_email_case_password_case:
  "(case_variant e e' \<longrightarrow>
      login env now db (credentials e' pw) = login env now db (credentials e pw))
   \<and> (find_by_email db (py_strip (py_lower e)) = Some u
        \<and> validate_email (py_strip (py_lower e)) \<and> e \<noteq> []
        \<and> password_hash u = Some (generate_password_hash env p)
        \<and> (\<forall>x. check_password_hash env (generate_password_hash env p) x = (x = p))
        \<and> q \<noteq> p \<and> q \<noteq> [] \<longrightarrow>
      login env now db (credentials e q) = (Error 401 ''Invalid email or password'', db)
      \<and> fst (login env now db (credentials e p)) \<noteq> Error 401 ''Invalid email or password'')"
proof (intro conjI impI)
  assume "case_variant e e'"
  then have "py_lower e' = py_lower e" "(e' = []) = (e = [])"
    using case_variant_lower [of e e'] case_variant_empty [of e e'] by auto
  then show "login env now db (credentials e' pw) = login env now db (credentials e pw)"
    by (rule login_email_only_lower)
next
  assume h: "find_by_email db (py_strip (py_lower e)) = Some u
        \<and> validate_email (py_strip (py_lower e)) \<and> e \<noteq> []
        \<and> password_hash u = Some (generate_password_hash env p)
        \<and> (\<forall>x. check_password_hash env (generate_password_hash env p) x = (x = p))
        \<and> q \<noteq> p \<and> q \<noteq> []"
  then show "login env now db (credentials e q) = (Error 401 ''Invalid email or password'', db)"
    by (intro login_wrong_password(1) [where u = u and p = p]) simp_all
  from h show "fst (login env now db (credentials e p)) \<noteq> Error 401 ''Invalid email or password''"
    by (intro login_wrong_password(2) [where u = u]) simp_all
qed

lemmas login_eval = login_def credentials_def check_password_def test_env_def find_by_email_def
  validate_email_eval lower_eval strip_eval char_eq_char_of

theorem C8_login_email_case_password_case_witness:
  "register test_env 7 0 [] jane_request = (Registered ''student'' 1, [jane_row])
   \<and> case_variant ''jane@students.kcau.ac.ke'' ''JANE@Students.KCAU.ac.ke''
   \<and> login test_env 9 [jane_row] (credentials ''JANE@Students.KCAU.ac.ke'' ''password123'')
       = login test_env 9 [jane_row] (credentials ''jane@students.kcau.ac.ke'' ''password123'')
   \<and> login test_env 9 [jane_row] (credentials ''jane@students.kcau.ac.ke'' ''Password123'')
       = (Error 401 ''Invalid email or password'', [jane_row])
   \<and> login test_env 9 [jane_row] (credentials ''jane@students.kcau.ac.ke'' ''password123'')
       = (VerificationRequired 1, [jane_row])"
proof -
  have first: "register test_env 7 0 [] jane_request = (Registered ''student'' 1, [jane_row])"
    by (simp add: register_eval jane_request_def jane_row_def)
  have variant: "case_variant ''jane@students.kcau.ac.ke'' ''JANE@Students.KCAU.ac.ke''"
    by (simp add: case_variant_def same_letter_def lower_eval char_eq_char_of)
  have norm: "py_strip (py_lower ''jane@students.kcau.ac.ke'') = ''jane@students.kcau.ac.ke''"
    by (simp add: lower_eval strip_eval char_eq_char_of)
  have row: "find_by_email [jane_row] (py_strip (py_lower ''jane@students.kcau.ac.ke'')) = Some jane_row"
    unfolding norm by (simp add: find_by_email_def jane_row_def)
  have valid: "validate_email (py_strip (py_lower ''jane@students.kcau.ac.ke''))"
    unfolding norm by (simp add: validate_email_eval)
  have stored: "password_hash jane_row = Some (generate_password_hash test_env ''password123'')"
    by (simp add: jane_row_def test_env_def)
  have hasher: "\<forall>x. check_password_hash test_env (generate_password_hash test_env ''password123'') x
                    = (x = ''password123'')"
    by (auto simp: test_env_def)
  have right: "login test_env 9 [jane_row] (credentials ''jane@students.kcau.ac.ke'' ''password123'')
       = (VerificationRequired 1, [jane_row])"
    by (simp add: login_eval jane_row_def new_user_def)
  have other: "''Password123'' \<noteq> ''password123''" "''Password123'' \<noteq> []"
    "''jane@students.kcau.ac.ke'' \<noteq> []" by simp_all
  show ?thesis
    using C8_login_email_case_password_case [where e = "''jane@students.kcau.ac.ke''"
        and e' = "''JANE@Students.KCAU.ac.ke''" and pw = "''password123''" and env = test_env
        and now = 9 and db = "[jane_row]" and u = jane_row and p = "''password123''"
        and q = "''Password123''"]
      first variant row valid stored hasher right other
    by blast
qed

lemma validate_email_nonempty: "validate_email a \<Longrightarrow> a \<noteq> []"
  by (auto simp: validate_email_def re_match_to_end_def email_pattern_def)

text \<open>
  C10 (as the code has it). For an account without a password hash that is the row found
  under its own email, whose stored email is in lower case without surrounding whitespace
  and passes \<open>validate_email\<close>: \<open>login\<close> with that email and any non-empty password does
  not answer 401; \<open>check_password\<close> raises on the null hash and the handler answers the 500
  "Login failed".
\<close>

theorem C10_login_without_password_hash:
  assumes row: "find_by_email db (email u) = Some u"
    and federated: "password_hash u = None"
    and stored_form: "py_strip (py_lower (email u)) = email u"
    and valid: "validate_email (email u)"
    and password: "pw \<noteq> []"
  shows "login env now db (credentials (email u) pw) = (Failure ''Login failed'' AttributeError, db)
       \<and> status (fst (login env now db (credentials (email u) pw))) = 500"
proof -
  from valid have "email u \<noteq> []" by (rule validate_email_nonempty)
  then have "login env now db (credentials (email u) pw) = (Failure ''Login failed'' AttributeError, db)"
    using row federated valid password
    by (simp add: login_def credentials_def Let_def stored_form check_password_def)
  then show ?thesis by simp
qed

theorem C10_login_without_password_hash_witness:
  "find_by_email [dave] (email dave) = Some dave \<and> password_hash dave = None
   \<and> login test_env 2 [dave] (credentials ''dave@gmail.com'' ''anything1'')
       = (Failure ''Login failed'' AttributeError, [dave])"
proof -
  have row: "find_by_email [dave] (email dave) = Some dave" by (simp add: find_by_email_def)
  have federated: "password_hash dave = None" by (simp add: dave_def new_user_def)
  have addr: "email dave = ''dave@gmail.com''" by (simp add: dave_def)
  have stored_form: "py_strip (py_lower (email dave)) = email dave"
    by (simp add: addr lower_eval strip_eval char_eq_char_of)
  have valid: "validate_email (email dave)" by (simp add: addr validate_email_eval)
  have password: "''anything1'' \<noteq> []" by simp
  show ?thesis
    using C10_login_without_password_hash [OF row federated stored_form valid password, of test_env 2]
      row federated addr
    by simp
qed

text \<open>
  An account that \<open>google_auth\<close> creates keeps the email of the assertion as it is.
  \<open>login\<close> lower-cases the submitted email before the look-up, so for the account created
  from \<open>Carol@Gmail.com\<close> the look-up finds no row and the answer is the 401 "Invalid email
  or password"; and an empty password is answered 400 before any look-up.
\<close>

theorem C10_unnormalised_email_counterexample:
  "google_auth carol_env 1 [] (Some ''carol-token'')
     = (Authenticated ''Google authentication successful'' (to_dict carol)
          (AccessToken 1) (RefreshToken 1), [carol])
   \<and> password_hash carol = None \<and> email carol = ''Carol@Gmail.com''
   \<and> login carol_env 2 [carol] (credentials ''Carol@Gmail.com'' ''anything1'')
       = (Error 401 ''Invalid email or password'', [carol])
   \<and> login test_env 2 [dave] (credentials ''dave@gmail.com'' [])
       = (Error 400 ''Email and password are required'', [dave])"
proof -
  have name: "unique_username [] ''Carol'' ''Carol'' 1 = ''Carol''"
    by (simp add: unique_username.simps find_by_username_def)
  have created: "google_auth carol_env 1 [] (Some ''carol-token'')
     = (Authenticated ''Google authentication successful'' (to_dict carol)
          (AccessToken 1) (RefreshToken 1), [carol])"
    by (simp add: google_auth_def carol_env_def test_env_def google_carol_def
        resolve_google_user_def find_by_google_id_def find_by_email_def split_at_first_def name
        add_and_commit_def db_insert_def unique_ok_def next_id_def carol_def new_user_def Let_def)
  have fields: "password_hash carol = None" "email carol = ''Carol@Gmail.com''"
    by (simp_all add: carol_def new_user_def)
  have refused: "login carol_env 2 [carol] (credentials ''Carol@Gmail.com'' ''anything1'')
       = (Error 401 ''Invalid email or password'', [carol])"
    by (simp add: login_eval carol_env_def carol_def new_user_def)
  have empty: "login test_env 2 [dave] (credentials ''dave@gmail.com'' [])
       = (Error 400 ''Email and password are required'', [dave])"
    by (simp add: login_def credentials_def)
  from created fields refused empty show ?thesis by (intro conjI)
qed

section \<open>Where role detection and validation agree\<close>

text \<open>
  The other parts of the agreement between \<open>detect_role_from_email\<close> and
  \<open>validate_institutional_email\<close>: an address of the student list is detected as student
  and accepted; an address of neither list is detected as student and rejected; and an
  address that ends, as written, with \<open>@kcau.ac.ke\<close> or \<open>@staff.kcau.ac.ke\<close> is detected
  as lecturer and accepted.
\<close>

lemma endswith_lower:
  assumes "endswith s suf"
  shows "endswith (py_lower s) (py_lower suf)"
proof -
  from assms have len: "length suf \<le> length s" and eq: "drop (length s - length suf) s = suf"
    by (simp_all add: endswith_def)
  have "drop (length s - length suf) (map py_lower_char s)
        = map py_lower_char (drop (length s - length suf) s)"
    by (simp add: drop_map)
  with eq len show ?thesis by (simp add: endswith_def py_lower_def)
qed

lemma endswith_nested:
  assumes "endswith s a" "endswith s b" "length a \<le> length b"
  shows "endswith b a"
proof -
  from assms have a: "a = drop (length s - length a) s" and b: "b = drop (length s - length b) s"
    and la: "length a \<le> length s" and lb: "length b \<le> length s"
    by (auto simp: endswith_def)
  have "drop (length b - length a) b = drop (length b - length a) (drop (length s - length b) s)"
    using b by simp
  also have "\<dots> = drop (length s - length a) s" using assms(3) lb by simp
  also have "\<dots> = a" using a by simp
  finally show ?thesis using assms(3) by (simp add: endswith_def)
qed

lemma lower_domains:
  "py_lower ''@students.kcau.ac.ke'' = ''@students.kcau.ac.ke''"
  "py_lower ''@student.kcau.ac.ke'' = ''@student.kcau.ac.ke''"
  "py_lower ''@kcau.ac.ke'' = ''@kcau.ac.ke''"
  "py_lower ''@staff.kcau.ac.ke'' = ''@staff.kcau.ac.ke''"
  "py_lower ''@faculty.kcau.ac.ke'' = ''@faculty.kcau.ac.ke''"
  "py_lower ''student'' = ''student''"
  "py_lower ''lecturer'' = ''lecturer''"
  by (simp_all add: lower_eval)

lemma domains_not_nested:
  "\<not> endswith ''@students.kcau.ac.ke'' ''@kcau.ac.ke''"
  "\<not> endswith ''@student.kcau.ac.ke'' ''@kcau.ac.ke''"
  "\<not> endswith ''@students.kcau.ac.ke'' ''@staff.kcau.ac.ke''"
  "\<not> endswith ''@student.kcau.ac.ke'' ''@staff.kcau.ac.ke''"
  by (simp_all add: endswith_def)

lemma student_not_lecturer_suffix:
  assumes low: "endswith s ''@students.kcau.ac.ke'' \<or> endswith s ''@student.kcau.ac.ke''"
  shows "\<not> endswith s ''@kcau.ac.ke''" and "\<not> endswith s ''@staff.kcau.ac.ke''"
proof -
  show "\<not> endswith s ''@kcau.ac.ke''"
  proof
    assume l: "endswith s ''@kcau.ac.ke''"
    from low show False
    proof
      assume "endswith s ''@students.kcau.ac.ke''"
      with l have "endswith ''@students.kcau.ac.ke'' ''@kcau.ac.ke''"
        by (rule endswith_nested) simp
      with domains_not_nested(1) show False by contradiction
    next
      assume "endswith s ''@student.kcau.ac.ke''"
      with l have "endswith ''@student.kcau.ac.ke'' ''@kcau.ac.ke''"
        by (rule endswith_nested) simp
      with domains_not_nested(2) show False by contradiction
    qed
  qed
  show "\<not> endswith s ''@staff.kcau.ac.ke''"
  proof
    assume l: "endswith s ''@staff.kcau.ac.ke''"
    from low show False
    proof
      assume "endswith s ''@students.kcau.ac.ke''"
      with l have "endswith ''@students.kcau.ac.ke'' ''@staff.kcau.ac.ke''"
        by (rule endswith_nested) simp
      with domains_not_nested(3) show False by contradiction
    next
      assume st: "endswith s ''@student.kcau.ac.ke''"
      from l st have "endswith ''@student.kcau.ac.ke'' ''@staff.kcau.ac.ke''"
        by (rule endswith_nested) simp
      with domains_not_nested(4) show False by contradiction
    qed
  qed
qed

lemma detect_role_student_domains:
  assumes valid: "validate_email addr" and dom: "in_domains addr allowed_student_domains"
  shows "detect_role_from_email addr = ''student''
       \<and> validate_institutional_email addr (detect_role_from_email addr) = (True, ''Valid student email'')"
proof -
  from dom have low: "endswith (py_lower addr) ''@students.kcau.ac.ke''
                    \<or> endswith (py_lower addr) ''@student.kcau.ac.ke''"
    by (simp add: in_domains_def allowed_student_domains_def lower_domains)
  have n1: "\<not> endswith addr ''@kcau.ac.ke''"
  proof
    assume "endswith addr ''@kcau.ac.ke''"
    then have "endswith (py_lower addr) (py_lower ''@kcau.ac.ke'')" by (rule endswith_lower)
    then have "endswith (py_lower addr) ''@kcau.ac.ke''" by (simp only: lower_domains)
    with student_not_lecturer_suffix(1) [OF low] show False by contradiction
  qed
  have n2: "\<not> endswith addr ''@staff.kcau.ac.ke''"
  proof
    assume "endswith addr ''@staff.kcau.ac.ke''"
    then have "endswith (py_lower addr) (py_lower ''@staff.kcau.ac.ke'')" by (rule endswith_lower)
    then have "endswith (py_lower addr) ''@staff.kcau.ac.ke''" by (simp only: lower_domains)
    with student_not_lecturer_suffix(2) [OF low] show False by contradiction
  qed
  have role: "detect_role_from_email addr = ''student''"
    unfolding detect_role_from_email_def using n1 n2 by (simp only: simp_thms if_False if_cancel)
  have "validate_student_email addr = (True, ''Valid student email'')"
    unfolding validate_student_email_def using valid dom
    by (simp only: in_domains_def simp_thms if_True if_False)
  then show ?thesis unfolding role validate_institutional_email_def
    by (simp only: lower_domains simp_thms if_True)
qed

lemma detect_role_other_domains:
  assumes none: "\<not> in_domains addr allowed_student_domains"
    "\<not> in_domains addr allowed_lecturer_domains"
  shows "detect_role_from_email addr = ''student''
       \<and> fst (validate_institutional_email addr (detect_role_from_email addr)) = False"
proof -
  from none(2) have nolect: "\<not> endswith (py_lower addr) ''@kcau.ac.ke''"
    "\<not> endswith (py_lower addr) ''@staff.kcau.ac.ke''"
    by (simp_all add: in_domains_def allowed_lecturer_domains_def lower_domains)
  have n1: "\<not> endswith addr ''@kcau.ac.ke''"
  proof
    assume "endswith addr ''@kcau.ac.ke''"
    then have "endswith (py_lower addr) (py_lower ''@kcau.ac.ke'')" by (rule endswith_lower)
    then have "endswith (py_lower addr) ''@kcau.ac.ke''" by (simp only: lower_domains)
    with nolect(1) show False by contradiction
  qed
  have n2: "\<not> endswith addr ''@staff.kcau.ac.ke''"
  proof
    assume "endswith addr ''@staff.kcau.ac.ke''"
    then have "endswith (py_lower addr) (py_lower ''@staff.kcau.ac.ke'')" by (rule endswith_lower)
    then have "endswith (py_lower addr) ''@staff.kcau.ac.ke''" by (simp only: lower_domains)
    with nolect(2) show False by contradiction
  qed
  have role: "detect_role_from_email addr = ''student''"
    unfolding detect_role_from_email_def using n1 n2 by (simp only: simp_thms if_False if_cancel)
  have "fst (validate_student_email addr) = False"
  proof (cases "validate_email addr")
    case True
    then show ?thesis unfolding validate_student_email_def using none(1)
      by (simp only: in_domains_def simp_thms if_True if_False fst_conv)
  next
    case False
    then show ?thesis unfolding validate_student_email_def
      by (simp only: simp_thms if_True fst_conv)
  qed
  then show ?thesis unfolding role validate_institutional_email_def
    by (simp only: lower_domains simp_thms if_True)
qed

lemma detect_role_lecturer_suffixes:
  assumes valid: "validate_email addr"
    and suffix: "endswith addr ''@kcau.ac.ke'' \<or> endswith addr ''@staff.kcau.ac.ke''"
  shows "detect_role_from_email addr = ''lecturer''
       \<and> validate_institutional_email addr (detect_role_from_email addr) = (True, ''Valid lecturer email'')"
proof -
  have n1: "\<not> endswith addr ''@students.kcau.ac.ke''"
  proof
    assume "endswith addr ''@students.kcau.ac.ke''"
    then have "endswith addr ''@students.kcau.ac.ke'' \<or> endswith addr ''@student.kcau.ac.ke''" ..
    from student_not_lecturer_suffix [OF this] suffix show False by blast
  qed
  have n2: "\<not> endswith addr ''@student.kcau.ac.ke''"
  proof
    assume "endswith addr ''@student.kcau.ac.ke''"
    then have "endswith addr ''@students.kcau.ac.ke'' \<or> endswith addr ''@student.kcau.ac.ke''" ..
    from student_not_lecturer_suffix [OF this] suffix show False by blast
  qed
  have role: "detect_role_from_email addr = ''lecturer''"
    unfolding detect_role_from_email_def using n1 n2 suffix
    by (simp only: simp_thms if_False if_True)
  have low: "endswith (py_lower addr) ''@kcau.ac.ke'' \<or> endswith (py_lower addr) ''@staff.kcau.ac.ke''"
    using suffix endswith_lower [of addr "''@kcau.ac.ke''"]
      endswith_lower [of addr "''@staff.kcau.ac.ke''"]
    unfolding lower_domains by blast
  have "in_domains addr allowed_lecturer_domains"
    using low by (auto simp add: in_domains_def allowed_lecturer_domains_def lower_domains)
  then have "validate_lecturer_email addr = (True, ''Valid lecturer email'')"
    unfolding validate_lecturer_email_def using valid
    by (simp only: in_domains_def simp_thms if_True if_False)
  moreover have "py_lower ''lecturer'' \<noteq> ''student''" by (simp add: lower_domains)
  ultimately show ?thesis unfolding role validate_institutional_email_def
    by (simp only: lower_domains simp_thms if_True if_False)
qed

end
